theory Spec2Isabelle
  imports Main
begin

section \<open>Responses\<close>

text \<open>
  The handlers of \<^verbatim>\<open>ihome/api_1_0/passport.py\<close> answer with
  \<^verbatim>\<open>jsonify(errno=RET.X, errmsg=...)\<close>. The class \<^verbatim>\<open>RET\<close> lives in
  \<^verbatim>\<open>ihome.utils.response_code\<close>, which is not among the sources, so an error code is
  recorded as the attribute of \<^verbatim>\<open>RET\<close> that the handler names. The messages are
  Chinese text; each message literal of the source is one constructor of \<open>errmsg\<close>
  (the literal \<^verbatim>\<open>'ture'\<close> of \<^verbatim>\<open>check_login\<close> is spelled so there).
\<close>

datatype RET = OK | DBERR | NODATA | DATAEXIST | DATAERR | SESSIONERR | PARAMERR | REQERR

datatype errmsg =
    Msg_params_incomplete
  | Msg_mobile_format_error
  | Msg_passwords_differ
  | Msg_read_sms_code_failed
  | Msg_sms_code_expired
  | Msg_sms_code_wrong
  | Msg_mobile_exists
  | Msg_db_query_failed
  | Msg_register_ok
  | Msg_mobile_format_incorrect
  | Msg_too_many_errors
  | Msg_get_user_failed
  | Msg_user_or_password_wrong
  | Msg_login_ok
  | Msg_ture
  | Msg_false
  | Msg_ok

datatype pyval = PyStr string | PyInt nat

fun py_truthy :: "pyval \<Rightarrow> bool" where
  "py_truthy (PyStr s) = (s \<noteq> [])"
| "py_truthy (PyInt n) = (n \<noteq> 0)"

record response =
  errno :: RET
  errmsg :: errmsg
  data_name :: "pyval option"

definition jsonify :: "RET \<Rightarrow> errmsg \<Rightarrow> response" where
  "jsonify e m = \<lparr>errno = e, errmsg = m, data_name = None\<rparr>"

section \<open>Exceptions\<close>

text \<open>
  \<open>StoreError\<close> stands for any exception raised by the Redis client or by the
  database layer other than \<open>IntegrityError\<close>; \<open>ResponseError\<close> is the Redis
  server's refusal of \<^verbatim>\<open>INCR\<close> on a value that is no 64-bit integer. \<open>ValueError\<close>
  and \<open>UnicodeDecodeError\<close> are raised by \<^verbatim>\<open>int(...)\<close> and \<^verbatim>\<open>bytes.decode()\<close>.
\<close>

datatype exn = StoreError | ResponseError | IntegrityError | ValueError | UnicodeDecodeError

section \<open>Strings, truthiness and the mobile pattern\<close>

text \<open>
  A request field is \<open>None\<close> (the key is absent, or JSON \<^verbatim>\<open>null\<close>) or a string.
  A Python \<^verbatim>\<open>str\<close> is modelled by the list of its characters and the model covers
  ASCII text; on it \<^verbatim>\<open>\d\<close> matches exactly the digits \<^verbatim>\<open>0\<close> to \<^verbatim>\<open>9\<close>.
\<close>

definition truthy :: "string option \<Rightarrow> bool" where
  "truthy x = (case x of None \<Rightarrow> False | Some s \<Rightarrow> s \<noteq> [])"

definition py_all :: "string option list \<Rightarrow> bool" where
  "py_all xs = list_all truthy xs"

definition is_digit :: "char \<Rightarrow> bool" where
  "is_digit c = (c \<in> set ''0123456789'')"

text \<open>
  \<^verbatim>\<open>re.match(r'1[345678]\d{9}', s)\<close>: the pattern is tried at position 0 of \<open>s\<close> and
  nothing anchors its end.
\<close>

definition re_match_mobile :: "string \<Rightarrow> bool" where
  "re_match_mobile s =
     (case s of
        c1 # c2 # rest \<Rightarrow>
          c1 = CHR ''1'' \<and> c2 \<in> set ''345678'' \<and> 9 \<le> length rest \<and> list_all is_digit (take 9 rest)
      | _ \<Rightarrow> False)"

section \<open>Decimal numbers in Redis values\<close>

definition digit_val :: "char \<Rightarrow> nat" where
  "digit_val c = of_char c - 48"

definition digit_char :: "nat \<Rightarrow> char" where
  "digit_char d = ''0123456789'' ! d"

fun nat_to_dec :: "nat \<Rightarrow> string" where
  "nat_to_dec n = (if n < 10 then [digit_char n] else nat_to_dec (n div 10) @ [digit_char (n mod 10)])"

declare nat_to_dec.simps [simp del]

definition int_to_dec :: "int \<Rightarrow> string" where
  "int_to_dec i = (if i < 0 then CHR ''-'' # nat_to_dec (nat (- i)) else nat_to_dec (nat i))"

text \<open>
  \<^verbatim>\<open>int(b)\<close> on \<^verbatim>\<open>bytes\<close>: ASCII white space is stripped at both ends, one sign
  may follow, then decimal digits, single underscores allowed between digits. Anything
  else raises \<^verbatim>\<open>ValueError\<close> (\<open>None\<close> here).
\<close>

definition is_space :: "char \<Rightarrow> bool" where
  "is_space c = (of_char c \<in> {9::nat, 10, 11, 12, 13, 32})"

definition strip :: "string \<Rightarrow> string" where
  "strip s = rev (dropWhile is_space (rev (dropWhile is_space s)))"

fun parse_dec :: "bool \<Rightarrow> nat \<Rightarrow> string \<Rightarrow> nat option" where
  "parse_dec prev acc [] = (if prev then Some acc else None)"
| "parse_dec prev acc (c # cs) =
     (if is_digit c then parse_dec True (acc * 10 + digit_val c) cs
      else if c = CHR ''_'' \<and> prev then parse_dec False acc cs
      else None)"

definition py_int :: "string \<Rightarrow> int option" where
  "py_int b =
     (case strip b of
        [] \<Rightarrow> None
      | c # cs \<Rightarrow>
          if c = CHR ''-'' then map_option (\<lambda>n. - int n) (parse_dec False 0 cs)
          else if c = CHR ''+'' then map_option int (parse_dec False 0 cs)
          else map_option int (parse_dec False 0 (c # cs)))"

text \<open>
  \<^verbatim>\<open>bytes.decode()\<close>: ASCII bytes decode to the same characters. A value with a byte
  above 127 either is invalid UTF-8 (the call raises) or decodes to text outside ASCII,
  which the model does not represent; both are given the outcome \<open>UnicodeDecodeError\<close>.
\<close>

definition decode :: "string \<Rightarrow> exn + string" where
  "decode b = (if list_all (\<lambda>c. (of_char c :: nat) < 128) b then Inr b else Inl UnicodeDecodeError)"

section \<open>The Redis store\<close>

text \<open>
  \<^verbatim>\<open>redis_store\<close> is a key-value store with an optional deadline per key. The clock
  counts seconds; a key whose deadline has been reached reads as absent.
\<close>

record redis =
  clock :: nat
  entries :: "string \<rightharpoonup> (string \<times> nat option)"

definition live :: "redis \<Rightarrow> string \<Rightarrow> (string \<times> nat option) option" where
  "live s k =
     (case entries s k of
        None \<Rightarrow> None
      | Some (v, d) \<Rightarrow>
          (case d of None \<Rightarrow> Some (v, d) | Some t \<Rightarrow> if clock s < t then Some (v, d) else None))"

definition redis_get :: "redis \<Rightarrow> string \<Rightarrow> string option" where
  "redis_get s k = map_option fst (live s k)"

definition redis_delete :: "redis \<Rightarrow> string \<Rightarrow> redis" where
  "redis_delete s k = s\<lparr>entries := (entries s)(k := None)\<rparr>"

text \<open>
  \<^verbatim>\<open>INCR\<close>: an absent key is created with the value 1 and no deadline; a present key
  keeps its deadline. The server refuses a value that is not the canonical decimal form
  of a 64-bit integer, and an increment past \<open>2^63 - 1\<close>.
\<close>

definition redis_int :: "string \<Rightarrow> int option" where
  "redis_int v =
     (case py_int v of
        None \<Rightarrow> None
      | Some n \<Rightarrow> if int_to_dec n = v \<and> - (2 ^ 63) \<le> n \<and> n < 2 ^ 63 then Some n else None)"

definition redis_incr :: "redis \<Rightarrow> string \<Rightarrow> exn + redis" where
  "redis_incr s k =
     (case live s k of
        None \<Rightarrow> Inr (s\<lparr>entries := (entries s)(k \<mapsto> (''1'', None))\<rparr>)
      | Some (v, d) \<Rightarrow>
          (case redis_int v of
             None \<Rightarrow> Inl ResponseError
           | Some n \<Rightarrow>
               if n + 1 < 2 ^ 63 then Inr (s\<lparr>entries := (entries s)(k \<mapsto> (int_to_dec (n + 1), d))\<rparr>)
               else Inl ResponseError))"

text \<open>
  \<^verbatim>\<open>EXPIRE key seconds\<close>: a live key gets the deadline \<open>clock + seconds\<close>; with
  \<open>seconds \<le> 0\<close> the key is deleted; an absent key is left alone.
\<close>

definition redis_expire :: "redis \<Rightarrow> string \<Rightarrow> int \<Rightarrow> redis" where
  "redis_expire s k secs =
     (case live s k of
        None \<Rightarrow> s
      | Some (v, d) \<Rightarrow>
          if secs \<le> 0 then redis_delete s k
          else s\<lparr>entries := (entries s)(k \<mapsto> (v, Some (clock s + nat secs)))\<rparr>)"

definition redis_tick :: "nat \<Rightarrow> redis \<Rightarrow> redis" where
  "redis_tick d s = s\<lparr>clock := clock s + d\<rparr>"

section \<open>The database, the session and the request\<close>

text \<open>
  \<^verbatim>\<open>User\<close> comes from \<^verbatim>\<open>ihome.models\<close> and the two limits from
  \<^verbatim>\<open>ihome.constants\<close>; neither module is among the sources. The limits, the setter
  behind \<^verbatim>\<open>user.password = ...\<close> and the method \<^verbatim>\<open>check_password\<close> are therefore
  parameters, collected in \<open>config\<close>.
\<close>

record user =
  user_id :: nat
  user_name :: string
  user_mobile :: string
  password_hash :: string

record config =
  LOGIN_ERROR_MAX_TIMES :: int
  LOGIN_ERROR_FORBID_TIME :: int
  set_password :: "string \<Rightarrow> string"
  check_password :: "user \<Rightarrow> string \<Rightarrow> bool"

text \<open>
  The parsed JSON body of a request and \<^verbatim>\<open>request.remote_addr\<close>. A field holds
  \<open>None\<close> or a string; a JSON value of another type is outside the model.
\<close>

record request =
  mobile :: "string option"
  sms_code :: "string option"
  password :: "string option"
  password2 :: "string option"
  remote_addr :: string

text \<open>
  Every call on Redis or on the database is recorded in \<open>trace\<close>, in the order of the
  calls, whether it returns or raises; so is every \<^verbatim>\<open>current_app.logger.error\<close>.
\<close>

datatype event =
    RedisGet string
  | RedisDelete string
  | RedisIncr string
  | RedisExpire string int
  | UserQuery string
  | DbAdd string
  | DbCommit
  | DbRollback
  | LogError exn

record world =
  store :: redis
  users :: "string \<rightharpoonup> user"
  session :: "string \<rightharpoonup> pyval"
  trace :: "event list"

text \<open>
  What the environment does to one request: which store calls raise, and how the
  database answers \<^verbatim>\<open>db.session.commit()\<close> (\<open>Committed uid\<close> assigns the primary key
  \<open>uid\<close>, \<open>Conflict\<close> raises \<^verbatim>\<open>IntegrityError\<close>, \<open>Failed\<close> raises another exception).
  A call that raises leaves the store as it was.
\<close>

datatype commit_outcome = Committed nat | Conflict | Failed

record faults =
  get_raises :: bool
  delete_raises :: bool
  incr_raises :: bool
  expire_raises :: bool
  query_raises :: bool
  commit_result :: commit_outcome

definition emit :: "event \<Rightarrow> world \<Rightarrow> world" where
  "emit e w = w\<lparr>trace := trace w @ [e]\<rparr>"

definition log_error :: "exn \<Rightarrow> world \<Rightarrow> world" where
  "log_error e w = emit (LogError e) w"

definition store_get :: "faults \<Rightarrow> string \<Rightarrow> world \<Rightarrow> (exn + string option) \<times> world" where
  "store_get f k w =
     (if get_raises f then (Inl StoreError, emit (RedisGet k) w)
      else (Inr (redis_get (store w) k), emit (RedisGet k) w))"

definition store_delete :: "faults \<Rightarrow> string \<Rightarrow> world \<Rightarrow> (exn + unit) \<times> world" where
  "store_delete f k w =
     (if delete_raises f then (Inl StoreError, emit (RedisDelete k) w)
      else (Inr (), emit (RedisDelete k) (w\<lparr>store := redis_delete (store w) k\<rparr>)))"

definition store_incr :: "faults \<Rightarrow> string \<Rightarrow> world \<Rightarrow> (exn + unit) \<times> world" where
  "store_incr f k w =
     (if incr_raises f then (Inl StoreError, emit (RedisIncr k) w)
      else (case redis_incr (store w) k of
              Inl e \<Rightarrow> (Inl e, emit (RedisIncr k) w)
            | Inr s \<Rightarrow> (Inr (), emit (RedisIncr k) (w\<lparr>store := s\<rparr>))))"

definition store_expire :: "faults \<Rightarrow> string \<Rightarrow> int \<Rightarrow> world \<Rightarrow> (exn + unit) \<times> world" where
  "store_expire f k secs w =
     (if expire_raises f then (Inl StoreError, emit (RedisExpire k secs) w)
      else (Inr (), emit (RedisExpire k secs) (w\<lparr>store := redis_expire (store w) k secs\<rparr>)))"

definition user_query :: "faults \<Rightarrow> string \<Rightarrow> world \<Rightarrow> (exn + user option) \<times> world" where
  "user_query f m w =
     (if query_raises f then (Inl StoreError, emit (UserQuery m) w)
      else (Inr (users w m), emit (UserQuery m) w))"

text \<open>
  \<^verbatim>\<open>db.session.add(user); db.session.commit()\<close> for the new user whose name and mobile
  are both \<open>m\<close>.
\<close>

definition add_commit :: "config \<Rightarrow> faults \<Rightarrow> string \<Rightarrow> string \<Rightarrow> world \<Rightarrow> (exn + nat) \<times> world" where
  "add_commit cfg f m p w =
     (let w1 = emit DbCommit (emit (DbAdd m) w) in
      case commit_result f of
        Committed uid \<Rightarrow>
          (Inr uid,
           w1\<lparr>users := (users w1)(m \<mapsto>
                 \<lparr>user_id = uid, user_name = m, user_mobile = m, password_hash = set_password cfg p\<rparr>)\<rparr>)
      | Conflict \<Rightarrow> (Inl IntegrityError, w1)
      | Failed \<Rightarrow> (Inl StoreError, w1))"

definition set_session :: "string \<Rightarrow> string \<Rightarrow> nat \<Rightarrow> world \<Rightarrow> world" where
  "set_session n m uid w =
     w\<lparr>session := (session w)(''name'' \<mapsto> PyStr n, ''mobile'' \<mapsto> PyStr m, ''user_id'' \<mapsto> PyInt uid)\<rparr>"

text \<open>The keys \<^verbatim>\<open>'sms_code_%s' % mobile\<close> and \<^verbatim>\<open>'access_nums_%s' % user_ip\<close>.\<close>

definition sms_code_key :: "string \<Rightarrow> string" where
  "sms_code_key m = ''sms_code_'' @ m"

definition access_nums_key :: "string \<Rightarrow> string" where
  "access_nums_key ip = ''access_nums_'' @ ip"

section \<open>register\<close>

definition register :: "config \<Rightarrow> faults \<Rightarrow> request \<Rightarrow> world \<Rightarrow> (exn + response) \<times> world" where
  "register cfg f r w =
     (if \<not> py_all [mobile r, sms_code r, password r, password2 r]
      then (Inr (jsonify PARAMERR Msg_params_incomplete), w)
      else
        let m = the (mobile r); c = the (sms_code r); p = the (password r); p2 = the (password2 r) in
        if \<not> re_match_mobile m then (Inr (jsonify PARAMERR Msg_mobile_format_error), w)
        else if p \<noteq> p2 then (Inr (jsonify PARAMERR Msg_passwords_differ), w)
        else
          (case store_get f (sms_code_key m) w of
             (Inl e, w1) \<Rightarrow> (Inr (jsonify DBERR Msg_read_sms_code_failed), log_error e w1)
           | (Inr None, w1) \<Rightarrow> (Inr (jsonify NODATA Msg_sms_code_expired), w1)
           | (Inr (Some real), w1) \<Rightarrow>
               (let w2 = (case store_delete f (sms_code_key m) w1 of
                            (Inl e, w') \<Rightarrow> log_error e w'
                          | (Inr u, w') \<Rightarrow> w')
                in
                (case decode real of
                   Inl e \<Rightarrow> (Inl e, w2)
                 | Inr real_sms_code \<Rightarrow>
                     (if real_sms_code \<noteq> c then (Inr (jsonify DATAERR Msg_sms_code_wrong), w2)
                      else
                        (case add_commit cfg f m p w2 of
                           (Inl e, w3) \<Rightarrow>
                             (if e = IntegrityError
                              then (Inr (jsonify DATAEXIST Msg_mobile_exists),
                                    log_error e (emit DbRollback w3))
                              else (Inr (jsonify DATAERR Msg_db_query_failed),
                                    log_error e (emit DbRollback w3)))
                         | (Inr uid, w3) \<Rightarrow>
                             (Inr (jsonify OK Msg_register_ok), set_session m m uid w3)))))))"

section \<open>login\<close>

text \<open>
  The \<^verbatim>\<open>try\<close> around \<^verbatim>\<open>incr\<close> and \<^verbatim>\<open>expire\<close>: the first call that raises ends the
  block, and the handler logs the exception.
\<close>

definition record_failure :: "config \<Rightarrow> faults \<Rightarrow> string \<Rightarrow> world \<Rightarrow> world" where
  "record_failure cfg f k w =
     (case store_incr f k w of
        (Inl e, w1) \<Rightarrow> log_error e w1
      | (Inr u, w1) \<Rightarrow>
          (case store_expire f k (LOGIN_ERROR_FORBID_TIME cfg) w1 of
             (Inl e, w2) \<Rightarrow> log_error e w2
           | (Inr u', w2) \<Rightarrow> w2))"

text \<open>The handler from the database query on.\<close>

definition login_check :: "config \<Rightarrow> faults \<Rightarrow> string \<Rightarrow> string \<Rightarrow> string \<Rightarrow> world \<Rightarrow> (exn + response) \<times> world" where
  "login_check cfg f m p k w =
     (case user_query f m w of
        (Inl e, w1) \<Rightarrow> (Inr (jsonify DBERR Msg_get_user_failed), log_error e w1)
      | (Inr None, w1) \<Rightarrow>
          (Inr (jsonify DATAERR Msg_user_or_password_wrong), record_failure cfg f k w1)
      | (Inr (Some u), w1) \<Rightarrow>
          if \<not> check_password cfg u p
          then (Inr (jsonify DATAERR Msg_user_or_password_wrong), record_failure cfg f k w1)
          else (Inr (jsonify OK Msg_login_ok), set_session (user_name u) (user_mobile u) (user_id u) w1))"

text \<open>
  \<^verbatim>\<open>req_dict.get('mobile', '')\<close> gives the empty string for an absent key and \<open>None\<close>
  for \<^verbatim>\<open>null\<close>; both are false in \<^verbatim>\<open>all\<close>. \<^verbatim>\<open>int(access_nums)\<close> stands in the
  \<^verbatim>\<open>else\<close> branch of the \<^verbatim>\<open>try\<close>, so its \<^verbatim>\<open>ValueError\<close> leaves the handler.
\<close>

definition login :: "config \<Rightarrow> faults \<Rightarrow> request \<Rightarrow> world \<Rightarrow> (exn + response) \<times> world" where
  "login cfg f r w =
     (if \<not> py_all [mobile r, password r]
      then (Inr (jsonify DATAERR Msg_params_incomplete), w)
      else
        let m = the (mobile r); p = the (password r) in
        if \<not> re_match_mobile m then (Inr (jsonify DATAERR Msg_mobile_format_incorrect), w)
        else
          let k = access_nums_key (remote_addr r) in
          case store_get f k w of
            (Inl e, w1) \<Rightarrow> login_check cfg f m p k (log_error e w1)
          | (Inr None, w1) \<Rightarrow> login_check cfg f m p k w1
          | (Inr (Some access_nums), w1) \<Rightarrow>
              (case py_int access_nums of
                 None \<Rightarrow> (Inl ValueError, w1)
               | Some n \<Rightarrow>
                   if n \<ge> LOGIN_ERROR_MAX_TIMES cfg
                   then (Inr (jsonify REQERR Msg_too_many_errors), w1)
                   else login_check cfg f m p k w1))"

section \<open>check_login and logout\<close>

definition check_login :: "world \<Rightarrow> response \<times> world" where
  "check_login w =
     (case session w ''name'' of
        None \<Rightarrow> (jsonify SESSIONERR Msg_false, w)
      | Some n \<Rightarrow>
          if py_truthy n then (\<lparr>errno = OK, errmsg = Msg_ture, data_name = Some n\<rparr>, w)
          else (jsonify SESSIONERR Msg_false, w))"

definition logout :: "world \<Rightarrow> response \<times> world" where
  "logout w = (jsonify OK Msg_ok, w\<lparr>session := Map.empty\<rparr>)"

section \<open>Observing one request\<close>

text \<open>The calls one request adds to the trace: what \<open>w'\<close> has recorded beyond \<open>w\<close>.\<close>

definition calls :: "world \<Rightarrow> world \<Rightarrow> event list" where
  "calls w w' = drop (length (trace w)) (trace w')"

section \<open>Example data\<close>

text \<open>
  The scenario data of the specification: the limits 5 and 600, the subject
  \<^verbatim>\<open>13800001111\<close> with the stored code \<^verbatim>\<open>4321\<close>, the client \<^verbatim>\<open>203.0.113.5\<close>.
  The example configuration stores a password as it is and compares it for equality,
  in place of the hashing of \<^verbatim>\<open>ihome.models\<close>.
\<close>

definition example_config :: config where
  "example_config =
     \<lparr>LOGIN_ERROR_MAX_TIMES = 5, LOGIN_ERROR_FORBID_TIME = 600,
      set_password = (\<lambda>p. p), check_password = (\<lambda>u p. password_hash u = p)\<rparr>"

definition no_faults :: faults where
  "no_faults =
     \<lparr>get_raises = False, delete_raises = False, incr_raises = False, expire_raises = False,
      query_raises = False, commit_result = Committed 1\<rparr>"

definition get_fault :: faults where
  "get_fault = no_faults\<lparr>get_raises := True\<rparr>"

definition query_fault :: faults where
  "query_fault = no_faults\<lparr>query_raises := True\<rparr>"

definition example_world :: world where
  "example_world =
     \<lparr>store = \<lparr>clock = 0, entries = [sms_code_key ''13800001111'' \<mapsto> (''4321'', Some 300)]\<rparr>,
      users = [''13900002222'' \<mapsto>
                 \<lparr>user_id = 7, user_name = ''13900002222'', user_mobile = ''13900002222'',
                  password_hash = ''secret''\<rparr>],
      session = Map.empty, trace = []\<rparr>"

definition world_with_count :: "string \<Rightarrow> world" where
  "world_with_count c =
     example_world\<lparr>store :=
       \<lparr>clock = 10, entries = [access_nums_key ''203.0.113.5'' \<mapsto> (c, Some 600)]\<rparr>\<rparr>"

definition example_request :: request where
  "example_request =
     \<lparr>mobile = Some ''13800001111'', sms_code = Some ''4321'', password = Some ''pw'',
      password2 = Some ''pw'', remote_addr = ''203.0.113.5''\<rparr>"

definition other_request :: request where
  "other_request =
     \<lparr>mobile = Some ''13900002222'', sms_code = None, password = Some ''guess'',
      password2 = None, remote_addr = ''203.0.113.5''\<rparr>"

definition good_request :: request where
  "good_request = other_request\<lparr>password := Some ''secret''\<rparr>"

section \<open>A client that keeps failing\<close>

text \<open>
  Time passes between requests: \<open>tick d\<close> moves the clock of the store on by \<open>d\<close>
  seconds. \<open>failed_logins cfg r ds w\<close> sends the request \<open>r\<close> once per element of
  \<open>ds\<close>, with no fault in the stores, and lets \<open>d\<close> seconds pass after each call.
  \<open>counter_is s k j\<close> says that the counter under \<open>k\<close> stands at \<open>j\<close>: absent for
  \<open>j = 0\<close>, else present with the value \<open>j\<close> and a deadline still ahead.
\<close>

definition tick :: "nat \<Rightarrow> world \<Rightarrow> world" where
  "tick d w = w\<lparr>store := redis_tick d (store w)\<rparr>"

fun failed_logins :: "config \<Rightarrow> request \<Rightarrow> nat list \<Rightarrow> world \<Rightarrow> world" where
  "failed_logins cfg r [] w = w"
| "failed_logins cfg r (d # ds) w = failed_logins cfg r ds (tick d (snd (login cfg no_faults r w)))"

definition counter_is :: "redis \<Rightarrow> string \<Rightarrow> nat \<Rightarrow> bool" where
  "counter_is s k j =
     (if j = 0 then redis_get s k = None
      else (case entries s k of
              Some (v, Some t) \<Rightarrow> v = nat_to_dec j \<and> clock s < t
            | _ \<Rightarrow> False))"

section \<open>Auxiliary facts\<close>

lemma py_all4:
  "py_all [a, b, c, d] \<longleftrightarrow>
   (\<exists>x y z u. a = Some x \<and> x \<noteq> [] \<and> b = Some y \<and> y \<noteq> [] \<and> c = Some z \<and> z \<noteq> [] \<and> d = Some u \<and> u \<noteq> [])"
  by (auto simp: py_all_def truthy_def split: option.splits)

lemma re_match_mobile_take: "re_match_mobile (take 11 s) \<Longrightarrow> re_match_mobile s"
  apply (cases s; simp add: re_match_mobile_def)
  subgoal for a s'
  apply (cases s'; simp add: re_match_mobile_def)
    done
  done

lemma re_match_example [simp]: "re_match_mobile ''13800001111''"
  by (simp add: re_match_mobile_def is_digit_def)

lemma login_incomplete:
  "\<not> py_all [mobile r, password r] \<Longrightarrow> login cfg f r w = (Inr (jsonify DATAERR Msg_params_incomplete), w)"
  by (simp add: login_def)

lemma login_bad_format:
  "py_all [mobile r, password r] \<Longrightarrow> \<not> re_match_mobile (the (mobile r)) \<Longrightarrow>
   login cfg f r w = (Inr (jsonify DATAERR Msg_mobile_format_incorrect), w)"
  by (simp add: login_def)

lemma login_get_raises:
  "py_all [mobile r, password r] \<Longrightarrow> re_match_mobile (the (mobile r)) \<Longrightarrow> get_raises f \<Longrightarrow>
   login cfg f r w =
     login_check cfg f (the (mobile r)) (the (password r)) (access_nums_key (remote_addr r))
       (log_error StoreError (emit (RedisGet (access_nums_key (remote_addr r))) w))"
  by (simp add: login_def store_get_def Let_def)

lemma login_counter_absent:
  "py_all [mobile r, password r] \<Longrightarrow> re_match_mobile (the (mobile r)) \<Longrightarrow> \<not> get_raises f \<Longrightarrow>
   redis_get (store w) (access_nums_key (remote_addr r)) = None \<Longrightarrow>
   login cfg f r w =
     login_check cfg f (the (mobile r)) (the (password r)) (access_nums_key (remote_addr r))
       (emit (RedisGet (access_nums_key (remote_addr r))) w)"
  by (simp add: login_def store_get_def Let_def)

lemma login_counter_garbage:
  "py_all [mobile r, password r] \<Longrightarrow> re_match_mobile (the (mobile r)) \<Longrightarrow> \<not> get_raises f \<Longrightarrow>
   redis_get (store w) (access_nums_key (remote_addr r)) = Some v \<Longrightarrow> py_int v = None \<Longrightarrow>
   login cfg f r w = (Inl ValueError, emit (RedisGet (access_nums_key (remote_addr r))) w)"
  by (simp add: login_def store_get_def Let_def)

lemma login_counter_reached:
  "py_all [mobile r, password r] \<Longrightarrow> re_match_mobile (the (mobile r)) \<Longrightarrow> \<not> get_raises f \<Longrightarrow>
   redis_get (store w) (access_nums_key (remote_addr r)) = Some v \<Longrightarrow> py_int v = Some n \<Longrightarrow>
   LOGIN_ERROR_MAX_TIMES cfg \<le> n \<Longrightarrow>
   login cfg f r w =
     (Inr (jsonify REQERR Msg_too_many_errors), emit (RedisGet (access_nums_key (remote_addr r))) w)"
  by (simp add: login_def store_get_def Let_def)

lemma login_counter_below:
  "py_all [mobile r, password r] \<Longrightarrow> re_match_mobile (the (mobile r)) \<Longrightarrow> \<not> get_raises f \<Longrightarrow>
   redis_get (store w) (access_nums_key (remote_addr r)) = Some v \<Longrightarrow> py_int v = Some n \<Longrightarrow>
   n < LOGIN_ERROR_MAX_TIMES cfg \<Longrightarrow>
   login cfg f r w =
     login_check cfg f (the (mobile r)) (the (password r)) (access_nums_key (remote_addr r))
       (emit (RedisGet (access_nums_key (remote_addr r))) w)"
  by (simp add: login_def store_get_def Let_def)

lemma login_check_query_raises:
  "query_raises f \<Longrightarrow>
   login_check cfg f m p k w =
     (Inr (jsonify DBERR Msg_get_user_failed), log_error StoreError (emit (UserQuery m) w))"
  by (simp add: login_check_def user_query_def)

lemma login_check_rejected:
  "\<not> query_raises f \<Longrightarrow>
   users w m = None \<or> (\<exists>u. users w m = Some u \<and> \<not> check_password cfg u p) \<Longrightarrow>
   login_check cfg f m p k w =
     (Inr (jsonify DATAERR Msg_user_or_password_wrong), record_failure cfg f k (emit (UserQuery m) w))"
  by (auto simp add: login_check_def user_query_def emit_def)

lemma login_check_accepted:
  "\<not> query_raises f \<Longrightarrow> users w m = Some u \<Longrightarrow> check_password cfg u p \<Longrightarrow>
   login_check cfg f m p k w =
     (Inr (jsonify OK Msg_login_ok),
      set_session (user_name u) (user_mobile u) (user_id u) (emit (UserQuery m) w))"
  by (simp add: login_check_def user_query_def emit_def)


lemma login_limiter_cases:
  assumes "py_all [mobile r, password r]" and "re_match_mobile (the (mobile r))"
  obtains
    (garbage) "login cfg f r w = (Inl ValueError, emit (RedisGet (access_nums_key (remote_addr r))) w)"
  | (blocked) "login cfg f r w =
                 (Inr (jsonify REQERR Msg_too_many_errors), emit (RedisGet (access_nums_key (remote_addr r))) w)"
  | (pass) w1 where
      "login cfg f r w =
         login_check cfg f (the (mobile r)) (the (password r)) (access_nums_key (remote_addr r)) w1"
      and "w1 = emit (RedisGet (access_nums_key (remote_addr r))) w
           \<or> w1 = log_error StoreError (emit (RedisGet (access_nums_key (remote_addr r))) w)"
proof (cases "get_raises f")
  case True
  then show ?thesis using assms pass login_get_raises by blast
next
  case False
  show ?thesis
  proof (cases "redis_get (store w) (access_nums_key (remote_addr r))")
    case None
    then show ?thesis using assms False pass login_counter_absent by blast
  next
    case (Some v)
    show ?thesis
    proof (cases "py_int v")
      case None
      then show ?thesis using assms False Some garbage login_counter_garbage by blast
    next
      case (Some n)
      show ?thesis
      proof (cases "LOGIN_ERROR_MAX_TIMES cfg \<le> n")
        case True
        then show ?thesis
          using assms False \<open>redis_get (store w) (access_nums_key (remote_addr r)) = Some v\<close> Some
            blocked login_counter_reached by blast
      next
        case False
        then have "n < LOGIN_ERROR_MAX_TIMES cfg" by simp
        then show ?thesis
          using assms \<open>\<not> get_raises f\<close> \<open>redis_get (store w) (access_nums_key (remote_addr r)) = Some v\<close> Some
            pass login_counter_below by blast
      qed
    qed
  qed
qed

lemma emit_fields [simp]:
  "users (emit e w) = users w" "store (emit e w) = store w" "session (emit e w) = session w"
  "trace (emit e w) = trace w @ [e]"
  by (simp_all add: emit_def)

lemma log_error_fields [simp]:
  "users (log_error e w) = users w" "store (log_error e w) = store w" "session (log_error e w) = session w"
  "trace (log_error e w) = trace w @ [LogError e]"
  by (simp_all add: log_error_def)

lemma set_session_fields [simp]:
  "users (set_session n m uid w) = users w" "store (set_session n m uid w) = store w"
  "trace (set_session n m uid w) = trace w"
  by (simp_all add: set_session_def)

lemma record_failure_trace:
  "\<exists>es. trace (record_failure cfg f k w) = trace w @ RedisIncr k # es"
  by (simp add: record_failure_def store_incr_def store_expire_def split: sum.splits)

lemma record_failure_frame [simp]:
  "users (record_failure cfg f k w) = users w" "session (record_failure cfg f k w) = session w"
  by (simp_all add: record_failure_def store_incr_def store_expire_def split: sum.splits)

lemma login_check_trace:
  "\<exists>es. trace (snd (login_check cfg f m p k w)) = trace w @ UserQuery m # es"
proof (cases "query_raises f")
  case True
  then show ?thesis by (simp add: login_check_query_raises)
next
  case False
  show ?thesis
  proof (cases "users w m = None \<or> (\<exists>u. users w m = Some u \<and> \<not> check_password cfg u p)")
    case True
    obtain es where "trace (record_failure cfg f k (emit (UserQuery m) w)) = trace (emit (UserQuery m) w) @ RedisIncr k # es"
      using record_failure_trace by blast
    then show ?thesis using login_check_rejected [OF False True] by simp
  next
    case F2: False
    then obtain u where "users w m = Some u" "check_password cfg u p" by auto
    then show ?thesis using login_check_accepted [OF False] by simp
  qed
qed

lemma login_check_not_blocked:
  "fst (login_check cfg f m p k w) \<noteq> Inr (jsonify REQERR Msg_too_many_errors)"
  "fst (login_check cfg f m p k w) \<noteq> Inl e"
  by (simp_all add: login_check_def user_query_def jsonify_def split: option.splits)

lemma login_blocked_iff:
  assumes "py_all [mobile r, password r]" and "re_match_mobile (the (mobile r))"
  shows "fst (login cfg f r w) = Inr (jsonify REQERR Msg_too_many_errors) \<longleftrightarrow>
         (\<not> get_raises f \<and> (\<exists>v n. redis_get (store w) (access_nums_key (remote_addr r)) = Some v
             \<and> py_int v = Some n \<and> LOGIN_ERROR_MAX_TIMES cfg \<le> n))"
proof (cases "get_raises f")
  case True
  then show ?thesis using login_get_raises [OF assms True] login_check_not_blocked(1) by simp
next
  case False
  show ?thesis
  proof (cases "redis_get (store w) (access_nums_key (remote_addr r))")
    case None
    then show ?thesis using login_counter_absent [OF assms False None] login_check_not_blocked(1) by simp
  next
    case (Some v)
    show ?thesis
    proof (cases "py_int v")
      case None
      then show ?thesis using login_counter_garbage [OF assms False Some None] Some by simp
    next
      case Some': (Some n)
      show ?thesis
      proof (cases "LOGIN_ERROR_MAX_TIMES cfg \<le> n")
        case True
        then show ?thesis using login_counter_reached [OF assms False Some Some' True] Some Some' False by simp
      next
        case F: False
        then have "n < LOGIN_ERROR_MAX_TIMES cfg" by simp
        from login_counter_below [OF assms False Some Some' this]
        show ?thesis using Some Some' F False login_check_not_blocked(1) by simp
      qed
    qed
  qed
qed

lemma login_raises_iff:
  assumes "py_all [mobile r, password r]" and "re_match_mobile (the (mobile r))"
  shows "fst (login cfg f r w) = Inl ValueError \<longleftrightarrow>
         (\<not> get_raises f \<and> (\<exists>v. redis_get (store w) (access_nums_key (remote_addr r)) = Some v
             \<and> py_int v = None))"
proof (cases "get_raises f")
  case True
  then show ?thesis using login_get_raises [OF assms True] login_check_not_blocked(2) by simp
next
  case False
  show ?thesis
  proof (cases "redis_get (store w) (access_nums_key (remote_addr r))")
    case None
    then show ?thesis using login_counter_absent [OF assms False None] login_check_not_blocked(2) by simp
  next
    case (Some v)
    show ?thesis
    proof (cases "py_int v")
      case None
      then show ?thesis using login_counter_garbage [OF assms False Some None] Some False by simp
    next
      case Some': (Some n)
      show ?thesis
      proof (cases "LOGIN_ERROR_MAX_TIMES cfg \<le> n")
        case True
        then show ?thesis using login_counter_reached [OF assms False Some Some' True] Some Some' False by simp
      next
        case F: False
        then have "n < LOGIN_ERROR_MAX_TIMES cfg" by simp
        from login_counter_below [OF assms False Some Some' this]
        show ?thesis using Some Some' F False login_check_not_blocked(2) by simp
      qed
    qed
  qed
qed

lemmas eval_defs = login_def login_check_def register_def record_failure_def
  store_get_def store_delete_def store_incr_def store_expire_def user_query_def add_commit_def
  emit_def log_error_def set_session_def jsonify_def calls_def
  redis_get_def redis_delete_def redis_incr_def redis_expire_def redis_int_def live_def
  py_all_def truthy_def re_match_mobile_def is_digit_def sms_code_key_def access_nums_key_def
  decode_def py_int_def strip_def is_space_def digit_val_def digit_char_def int_to_dec_def
  example_config_def no_faults_def example_world_def example_request_def Let_def

subsection \<open>Decimal numbers\<close>

lemma digit_char_is_digit: "d < 10 \<Longrightarrow> is_digit (digit_char d)"
proof -
  assume "d < 10"
  then have "d \<in> {0,1,2,3,4,5,6,7,8,9}" by auto
  then show ?thesis by (auto simp: is_digit_def digit_char_def)
qed

lemma digit_val_digit_char: "d < 10 \<Longrightarrow> digit_val (digit_char d) = d"
proof -
  assume "d < 10"
  then have "d \<in> {0,1,2,3,4,5,6,7,8,9}" by auto
  then show ?thesis by (auto simp: digit_val_def digit_char_def)
qed

lemma is_digit_not_special:
  "is_digit c \<Longrightarrow> \<not> is_space c \<and> c \<noteq> CHR ''-'' \<and> c \<noteq> CHR ''+'' \<and> c \<noteq> CHR ''_''"
  by (auto simp: is_digit_def is_space_def)

lemma nat_to_dec_digits: "list_all is_digit (nat_to_dec n)"
proof (induction n rule: nat_to_dec.induct)
  case (1 n)
  show ?case
  proof (cases "n < 10")
    case True
    then show ?thesis by (simp add: nat_to_dec.simps [of n] digit_char_is_digit)
  next
    case False
    then show ?thesis using 1 by (simp add: nat_to_dec.simps [of n] digit_char_is_digit)
  qed
qed

lemma nat_to_dec_nonempty: "nat_to_dec n \<noteq> []"
  by (simp add: nat_to_dec.simps [of n])

lemma parse_dec_digits:
  "list_all is_digit ds \<Longrightarrow> ds \<noteq> [] \<Longrightarrow>
   parse_dec p acc ds = Some (foldl (\<lambda>a c. a * 10 + digit_val c) acc ds)"
proof (induction ds arbitrary: p acc)
  case Nil
  then show ?case by simp
next
  case (Cons c cs)
  show ?case
  proof (cases cs)
    case Nil
    then show ?thesis using Cons.prems by simp
  next
    case (Cons c' cs')
    then show ?thesis using Cons.IH [of True "acc * 10 + digit_val c"] Cons.prems by simp
  qed
qed

lemma foldl_nat_to_dec: "foldl (\<lambda>a c. a * 10 + digit_val c) 0 (nat_to_dec n) = n"
proof (induction n rule: nat_to_dec.induct)
  case (1 n)
  show ?case
  proof (cases "n < 10")
    case True
    then show ?thesis by (simp add: nat_to_dec.simps [of n] digit_val_digit_char)
  next
    case False
    then show ?thesis using 1 by (simp add: nat_to_dec.simps [of n] digit_val_digit_char)
  qed
qed

lemma dropWhile_none: "list_all (\<lambda>c. \<not> P c) xs \<Longrightarrow> dropWhile P xs = xs"
  by (cases xs) simp_all

lemma strip_digits: "list_all is_digit ds \<Longrightarrow> strip ds = ds"
proof -
  assume a: "list_all is_digit ds"
  then have n: "list_all (\<lambda>c. \<not> is_space c) ds"
    by (simp add: list_all_iff is_digit_not_special)
  then have "list_all (\<lambda>c. \<not> is_space c) (rev ds)" by (simp add: list_all_iff)
  then show ?thesis using n by (simp add: strip_def dropWhile_none)
qed

lemma py_int_nat_to_dec: "py_int (nat_to_dec n) = Some (int n)"
proof -
  obtain c cs where cs: "nat_to_dec n = c # cs"
    using nat_to_dec_nonempty by (cases "nat_to_dec n") auto
  have d: "list_all is_digit (c # cs)" using nat_to_dec_digits [of n] cs by simp
  then have "is_digit c" by simp
  then have ns: "c \<noteq> CHR ''-''" "c \<noteq> CHR ''+''" using is_digit_not_special by blast+
  have "parse_dec False 0 (c # cs) = Some n"
    using parse_dec_digits [OF d, of False 0] foldl_nat_to_dec [of n] cs by simp
  then show ?thesis using ns strip_digits [OF d] cs by (simp add: py_int_def)
qed

lemma redis_int_nat_to_dec: "int n < 2 ^ 63 \<Longrightarrow> redis_int (nat_to_dec n) = Some (int n)"
  by (simp add: redis_int_def py_int_nat_to_dec int_to_dec_def)

lemma nat_to_dec_1: "nat_to_dec (Suc 0) = ''1''"
  by (simp add: nat_to_dec.simps [of "Suc 0"] digit_char_def)

subsection \<open>Counting failures\<close>

lemma counter_is_zero: "counter_is s k 0 \<longleftrightarrow> redis_get s k = None"
  by (simp add: counter_is_def)

lemma counter_is_pos:
  "0 < j \<Longrightarrow>
   counter_is s k j \<longleftrightarrow> (\<exists>t. entries s k = Some (nat_to_dec j, Some t) \<and> clock s < t)"
proof (cases "entries s k")
  case None
  assume "0 < j"
  then show ?thesis using None by (simp add: counter_is_def)
next
  case (Some e)
  assume j: "0 < j"
  obtain v d where e: "e = (v, d)" by (cases e)
  show ?thesis
  proof (cases d)
    case None
    then show ?thesis using j Some e by (simp add: counter_is_def)
  next
    case (Some t)
    then show ?thesis using j \<open>entries s k = Some e\<close> e by (auto simp: counter_is_def)
  qed
qed

lemma counter_is_get:
  "counter_is s k j \<Longrightarrow> redis_get s k = (if j = 0 then None else Some (nat_to_dec j))"
proof (cases "j = 0")
  case True
  assume "counter_is s k j"
  then show ?thesis using True by (simp add: counter_is_zero)
next
  case False
  assume "counter_is s k j"
  then obtain t where "entries s k = Some (nat_to_dec j, Some t)" "clock s < t"
    using False counter_is_pos [of j s k] by auto
  then show ?thesis using False by (simp add: redis_get_def live_def)
qed

lemma counter_is_live:
  "counter_is s k j \<Longrightarrow> 0 < j \<Longrightarrow> \<exists>t. live s k = Some (nat_to_dec j, Some t)"
proof -
  assume "counter_is s k j" "0 < j"
  then obtain t where "entries s k = Some (nat_to_dec j, Some t)" "clock s < t"
    using counter_is_pos [of j s k] by auto
  then show ?thesis by (simp add: live_def)
qed

lemma redis_incr_absent:
  "live s k = None \<Longrightarrow> redis_incr s k = Inr (s\<lparr>entries := (entries s)(k \<mapsto> (''1'', None))\<rparr>)"
  by (simp add: redis_incr_def)

lemma redis_incr_present:
  "live s k = Some (v, d) \<Longrightarrow> redis_int v = Some n \<Longrightarrow> n + 1 < 2 ^ 63 \<Longrightarrow>
   redis_incr s k = Inr (s\<lparr>entries := (entries s)(k \<mapsto> (int_to_dec (n + 1), d))\<rparr>)"
  by (simp add: redis_incr_def)

lemma live_entry:
  "live (s\<lparr>entries := (entries s)(k \<mapsto> (v, d))\<rparr>) k =
     (case d of None \<Rightarrow> Some (v, d) | Some t \<Rightarrow> if clock s < t then Some (v, d) else None)"
  by (simp add: live_def split: option.splits)

lemma redis_expire_live:
  "live s k = Some (v, d) \<Longrightarrow> 0 < secs \<Longrightarrow>
   redis_expire s k secs = s\<lparr>entries := (entries s)(k \<mapsto> (v, Some (clock s + nat secs)))\<rparr>"
  by (simp add: redis_expire_def)

lemma record_failure_no_faults:
  "redis_incr (store w) k = Inr s \<Longrightarrow>
   store (record_failure cfg no_faults k w) = redis_expire s k (LOGIN_ERROR_FORBID_TIME cfg)"
  by (simp add: record_failure_def store_incr_def store_expire_def no_faults_def emit_def)

text \<open>Recording one failure, with no fault, on a counter that stands at \<open>j\<close>.\<close>

lemma record_failure_counts:
  assumes c: "counter_is (store w) k j" and b: "int j + 1 < 2 ^ 63"
    and p: "0 < LOGIN_ERROR_FORBID_TIME cfg"
  shows "entries (store (record_failure cfg no_faults k w)) k
           = Some (nat_to_dec (Suc j), Some (clock (store w) + nat (LOGIN_ERROR_FORBID_TIME cfg)))
       \<and> clock (store (record_failure cfg no_faults k w)) = clock (store w)"
proof (cases "j = 0")
  case True
  then have l: "live (store w) k = None" using c by (simp add: counter_is_def redis_get_def)
  let ?s = "(store w)\<lparr>entries := (entries (store w))(k \<mapsto> (''1'', None))\<rparr>"
  have l2: "live ?s k = Some (''1'', None)" by (simp add: live_entry)
  have "store (record_failure cfg no_faults k w) = redis_expire ?s k (LOGIN_ERROR_FORBID_TIME cfg)"
    using record_failure_no_faults [OF redis_incr_absent [OF l]] .
  then show ?thesis using redis_expire_live [OF l2 p] True by (simp add: nat_to_dec_1)
next
  case False
  then obtain t where l: "live (store w) k = Some (nat_to_dec j, Some t)"
    using counter_is_live [OF c] by auto
  have i: "redis_int (nat_to_dec j) = Some (int j)" using b by (simp add: redis_int_nat_to_dec)
  have s: "int_to_dec (int j + 1) = nat_to_dec (Suc j)"
    by (simp add: int_to_dec_def nat_add_distrib)
  have lt: "clock (store w) < t" using l by (auto simp: live_def split: option.splits if_splits)
  let ?s = "(store w)\<lparr>entries := (entries (store w))(k \<mapsto> (int_to_dec (int j + 1), Some t))\<rparr>"
  have l2: "live ?s k = Some (int_to_dec (int j + 1), Some t)" using lt by (simp add: live_entry)
  have "store (record_failure cfg no_faults k w) = redis_expire ?s k (LOGIN_ERROR_FORBID_TIME cfg)"
    using record_failure_no_faults [OF redis_incr_present [OF l i b]] .
  then show ?thesis using redis_expire_live [OF l2 p] s by simp
qed

lemma tick_fields [simp]:
  "users (tick d w) = users w" "clock (store (tick d w)) = clock (store w) + d"
  "entries (store (tick d w)) = entries (store w)" "trace (tick d w) = trace w"
  by (simp_all add: tick_def redis_tick_def)

lemma failed_login_step:
  assumes v: "py_all [mobile r, password r]" "re_match_mobile (the (mobile r))"
    and u: "users w (the (mobile r)) = None
         \<or> (\<exists>u. users w (the (mobile r)) = Some u \<and> \<not> check_password cfg u (the (password r)))"
    and c: "counter_is (store w) (access_nums_key (remote_addr r)) j"
    and j: "int j < LOGIN_ERROR_MAX_TIMES cfg" and m: "LOGIN_ERROR_MAX_TIMES cfg < 2 ^ 63"
    and p: "0 < LOGIN_ERROR_FORBID_TIME cfg"
  shows "entries (store (snd (login cfg no_faults r w))) (access_nums_key (remote_addr r))
           = Some (nat_to_dec (Suc j), Some (clock (store w) + nat (LOGIN_ERROR_FORBID_TIME cfg)))
       \<and> clock (store (snd (login cfg no_faults r w))) = clock (store w)
       \<and> users (snd (login cfg no_faults r w)) = users w
       \<and> fst (login cfg no_faults r w) = Inr (jsonify DATAERR Msg_user_or_password_wrong)"
proof -
  let ?k = "access_nums_key (remote_addr r)"
  let ?w1 = "emit (RedisGet ?k) w"
  let ?w2 = "emit (UserQuery (the (mobile r))) ?w1"
  have g: "\<not> get_raises no_faults" and q: "\<not> query_raises no_faults" by (simp_all add: no_faults_def)
  have "login cfg no_faults r w = login_check cfg no_faults (the (mobile r)) (the (password r)) ?k ?w1"
  proof (cases "j = 0")
    case True
    then have "redis_get (store w) ?k = None" using counter_is_get [OF c] by simp
    then show ?thesis using login_counter_absent [OF v g] by simp
  next
    case False
    then have "redis_get (store w) ?k = Some (nat_to_dec j)" using counter_is_get [OF c] by simp
    from login_counter_below [OF v g this py_int_nat_to_dec j] show ?thesis .
  qed
  moreover have "users ?w1 (the (mobile r)) = None
         \<or> (\<exists>u. users ?w1 (the (mobile r)) = Some u \<and> \<not> check_password cfg u (the (password r)))"
    using u by simp
  ultimately have e: "login cfg no_faults r w =
      (Inr (jsonify DATAERR Msg_user_or_password_wrong), record_failure cfg no_faults ?k ?w2)"
    using login_check_rejected [OF q] by simp
  have c2: "counter_is (store ?w2) ?k j" using c by simp
  have b: "int j + 1 < 2 ^ 63" using j m by simp
  from record_failure_counts [OF c2 b p] show ?thesis using e by simp
qed

lemma failed_logins_count:
  assumes v: "py_all [mobile r, password r]" "re_match_mobile (the (mobile r))"
    and m: "LOGIN_ERROR_MAX_TIMES cfg < 2 ^ 63" and p: "0 < LOGIN_ERROR_FORBID_TIME cfg"
  shows "users w (the (mobile r)) = None
         \<or> (\<exists>u. users w (the (mobile r)) = Some u \<and> \<not> check_password cfg u (the (password r))) \<Longrightarrow>
     counter_is (store w) (access_nums_key (remote_addr r)) j \<Longrightarrow>
     \<forall>d \<in> set ds. int d < LOGIN_ERROR_FORBID_TIME cfg \<Longrightarrow>
     int (j + length ds) \<le> LOGIN_ERROR_MAX_TIMES cfg \<Longrightarrow>
     counter_is (store (failed_logins cfg r ds w)) (access_nums_key (remote_addr r)) (j + length ds)
     \<and> users (failed_logins cfg r ds w) = users w"
proof (induction ds arbitrary: w j)
  case Nil
  then show ?case by simp
next
  case (Cons d ds)
  let ?k = "access_nums_key (remote_addr r)"
  let ?w' = "tick d (snd (login cfg no_faults r w))"
  have j: "int j < LOGIN_ERROR_MAX_TIMES cfg" using Cons.prems(4) by simp
  note s = failed_login_step [OF v Cons.prems(1) Cons.prems(2) j m p]
  have d: "int d < LOGIN_ERROR_FORBID_TIME cfg" using Cons.prems(3) by simp
  have c: "counter_is (store ?w') ?k (Suc j)"
    using s d by (simp add: counter_is_def)
  have u: "users ?w' = users w" using s by simp
  have "counter_is (store (failed_logins cfg r ds ?w')) ?k (Suc j + length ds)
     \<and> users (failed_logins cfg r ds ?w') = users ?w'"
  proof (rule Cons.IH [OF _ c])
    show "users ?w' (the (mobile r)) = None
         \<or> (\<exists>u. users ?w' (the (mobile r)) = Some u \<and> \<not> check_password cfg u (the (password r)))"
      using Cons.prems(1) u by simp
    show "\<forall>d \<in> set ds. int d < LOGIN_ERROR_FORBID_TIME cfg" using Cons.prems(3) by simp
    show "int (Suc j + length ds) \<le> LOGIN_ERROR_MAX_TIMES cfg" using Cons.prems(4) by simp
  qed
  then show ?case using u by simp
qed

lemma failed_logins_append:
  "failed_logins cfg r (ds @ [d]) w = tick d (snd (login cfg no_faults r (failed_logins cfg r ds w)))"
  by (induction ds arbitrary: w) simp_all

lemma failed_logins_expired:
  assumes v: "py_all [mobile r, password r]" "re_match_mobile (the (mobile r))"
    and m: "LOGIN_ERROR_MAX_TIMES cfg < 2 ^ 63" and p: "0 < LOGIN_ERROR_FORBID_TIME cfg"
    and u: "users w (the (mobile r)) = None
         \<or> (\<exists>u. users w (the (mobile r)) = Some u \<and> \<not> check_password cfg u (the (password r)))"
    and c: "redis_get (store w) (access_nums_key (remote_addr r)) = None"
    and ds: "\<forall>d \<in> set ds. int d < LOGIN_ERROR_FORBID_TIME cfg"
    and l: "int (length ds) < LOGIN_ERROR_MAX_TIMES cfg"
    and e: "LOGIN_ERROR_FORBID_TIME cfg \<le> int d"
  shows "redis_get (store (failed_logins cfg r (ds @ [d]) w)) (access_nums_key (remote_addr r)) = None"
proof -
  let ?k = "access_nums_key (remote_addr r)"
  let ?w = "failed_logins cfg r ds w"
  have c0: "counter_is (store w) ?k 0" using c by (simp add: counter_is_def)
  have "counter_is (store ?w) ?k (0 + length ds) \<and> users ?w = users w"
    using failed_logins_count [OF v m p u c0 ds] l by simp
  then have c1: "counter_is (store ?w) ?k (length ds)" and u1: "users ?w = users w" by simp_all
  have u2: "users ?w (the (mobile r)) = None
         \<or> (\<exists>u. users ?w (the (mobile r)) = Some u \<and> \<not> check_password cfg u (the (password r)))"
    using u u1 by simp
  note s = failed_login_step [OF v u2 c1 l m p]
  show ?thesis using s e p
    by (simp add: failed_logins_append redis_get_def live_def)
qed

lemma calls_emit [simp]: "calls w (emit e w) = [e]"
  by (simp add: calls_def)

lemma login_proceeds:
  assumes v: "py_all [mobile r, password r]" "re_match_mobile (the (mobile r))"
    and c: "redis_get (store w) (access_nums_key (remote_addr r)) = None
          \<or> (redis_get (store w) (access_nums_key (remote_addr r)) = Some x \<and> py_int x = Some n
              \<and> n < LOGIN_ERROR_MAX_TIMES cfg)"
  shows "fst (login cfg f r w) \<noteq> Inr (jsonify REQERR Msg_too_many_errors)
       \<and> UserQuery (the (mobile r)) \<in> set (calls w (snd (login cfg f r w)))"
proof -
  let ?k = "access_nums_key (remote_addr r)"
  have nb: "fst (login cfg f r w) \<noteq> Inr (jsonify REQERR Msg_too_many_errors)"
    using c by (auto simp: login_blocked_iff [OF v])
  have nr: "fst (login cfg f r w) \<noteq> Inl ValueError"
    using c by (auto simp: login_raises_iff [OF v])
  have "UserQuery (the (mobile r)) \<in> set (calls w (snd (login cfg f r w)))"
  proof (rule login_limiter_cases [OF v, of cfg f w])
    fix w1
    assume a: "login cfg f r w = login_check cfg f (the (mobile r)) (the (password r)) ?k w1"
      and b: "w1 = emit (RedisGet ?k) w \<or> w1 = log_error StoreError (emit (RedisGet ?k) w)"
    obtain es where "trace (snd (login cfg f r w)) = trace w1 @ UserQuery (the (mobile r)) # es"
      using login_check_trace [of cfg f "the (mobile r)" "the (password r)" ?k w1] a by auto
    then show ?thesis using b by (auto simp: calls_def)
  qed (use nb nr in simp_all)
  then show ?thesis using nb by simp
qed

subsection \<open>The branches of register\<close>

lemma register_invalid:
  "\<not> py_all [mobile r, sms_code r, password r, password2 r] \<Longrightarrow>
   register cfg f r w = (Inr (jsonify PARAMERR Msg_params_incomplete), w)"
  by (simp add: register_def)

lemma register_bad_format:
  "py_all [mobile r, sms_code r, password r, password2 r] \<Longrightarrow> \<not> re_match_mobile (the (mobile r)) \<Longrightarrow>
   register cfg f r w = (Inr (jsonify PARAMERR Msg_mobile_format_error), w)"
  by (simp add: register_def)

lemma register_get_raises:
  "py_all [mobile r, sms_code r, password r, password2 r] \<Longrightarrow> re_match_mobile (the (mobile r)) \<Longrightarrow>
   password2 r = password r \<Longrightarrow> get_raises f \<Longrightarrow>
   register cfg f r w =
     (Inr (jsonify DBERR Msg_read_sms_code_failed),
      log_error StoreError (emit (RedisGet (sms_code_key (the (mobile r)))) w))"
  by (simp add: register_def store_get_def Let_def)

lemma register_code_absent:
  "py_all [mobile r, sms_code r, password r, password2 r] \<Longrightarrow> re_match_mobile (the (mobile r)) \<Longrightarrow>
   password2 r = password r \<Longrightarrow> \<not> get_raises f \<Longrightarrow>
   redis_get (store w) (sms_code_key (the (mobile r))) = None \<Longrightarrow>
   register cfg f r w =
     (Inr (jsonify NODATA Msg_sms_code_expired), emit (RedisGet (sms_code_key (the (mobile r)))) w)"
  by (simp add: register_def store_get_def Let_def)

lemma register_code_present:
  "py_all [mobile r, sms_code r, password r, password2 r] \<Longrightarrow> re_match_mobile (the (mobile r)) \<Longrightarrow>
   password2 r = password r \<Longrightarrow> \<not> get_raises f \<Longrightarrow>
   redis_get (store w) (sms_code_key (the (mobile r))) = Some real \<Longrightarrow>
   register cfg f r w =
     (let w2 = (case store_delete f (sms_code_key (the (mobile r)))
                      (emit (RedisGet (sms_code_key (the (mobile r)))) w) of
                  (Inl e, w') \<Rightarrow> log_error e w'
                | (Inr u, w') \<Rightarrow> w')
      in
      (case decode real of
         Inl e \<Rightarrow> (Inl e, w2)
       | Inr real_sms_code \<Rightarrow>
           (if real_sms_code \<noteq> the (sms_code r) then (Inr (jsonify DATAERR Msg_sms_code_wrong), w2)
            else
              (case add_commit cfg f (the (mobile r)) (the (password r)) w2 of
                 (Inl e, w3) \<Rightarrow>
                   (if e = IntegrityError
                    then (Inr (jsonify DATAEXIST Msg_mobile_exists), log_error e (emit DbRollback w3))
                    else (Inr (jsonify DATAERR Msg_db_query_failed), log_error e (emit DbRollback w3)))
               | (Inr uid, w3) \<Rightarrow>
                   (Inr (jsonify OK Msg_register_ok),
                    set_session (the (mobile r)) (the (mobile r)) uid w3)))))"
  by (simp add: register_def store_get_def Let_def)

lemma add_commit_store [simp]: "store (snd (add_commit cfg f m p w)) = store w"
  by (simp add: add_commit_def Let_def emit_def split: commit_outcome.splits)

lemma register_store_after_delete:
  assumes "py_all [mobile r, sms_code r, password r, password2 r]" "re_match_mobile (the (mobile r))"
    "password2 r = password r" "\<not> get_raises f" "\<not> delete_raises f"
    "redis_get (store w) (sms_code_key (the (mobile r))) = Some real"
  shows "store (snd (register cfg f r w)) = redis_delete (store w) (sms_code_key (the (mobile r)))"
  using assms(5)
  by (simp add: register_code_present [OF assms(1,2,3,4,6)] store_delete_def Let_def
      case_prod_unfold split: sum.splits)

lemma register_trace_after_delete:
  assumes "py_all [mobile r, sms_code r, password r, password2 r]" "re_match_mobile (the (mobile r))"
    "password2 r = password r" "\<not> get_raises f" "\<not> delete_raises f"
    "redis_get (store w) (sms_code_key (the (mobile r))) = Some real"
  shows "take 2 (calls w (snd (register cfg f r w)))
           = [RedisGet (sms_code_key (the (mobile r))), RedisDelete (sms_code_key (the (mobile r)))]"
  using assms(5)
  by (simp add: register_code_present [OF assms(1,2,3,4,6)] store_delete_def Let_def add_commit_def
      calls_def emit_def log_error_def set_session_def case_prod_unfold
      split: sum.splits commit_outcome.splits)

lemma redis_get_deleted [simp]: "redis_get (redis_delete s k) k = None"
  by (simp add: redis_get_def redis_delete_def live_def)

lemma register_mismatch:
  "py_all [mobile r, sms_code r, password r, password2 r] \<Longrightarrow> re_match_mobile (the (mobile r)) \<Longrightarrow>
   password r \<noteq> password2 r \<Longrightarrow>
   register cfg f r w = (Inr (jsonify PARAMERR Msg_passwords_differ), w)"
  by (auto simp: register_def py_all4)

lemma register_response:
  assumes "py_all [mobile r, sms_code r, password r, password2 r]" "re_match_mobile (the (mobile r))"
    "password2 r = password r" "\<not> get_raises f"
    "redis_get (store w) (sms_code_key (the (mobile r))) = Some real"
  shows "fst (register cfg f r w) =
     (case decode real of
        Inl e \<Rightarrow> Inl e
      | Inr code \<Rightarrow>
          if code \<noteq> the (sms_code r) then Inr (jsonify DATAERR Msg_sms_code_wrong)
          else (case commit_result f of
                  Committed uid \<Rightarrow> Inr (jsonify OK Msg_register_ok)
                | Conflict \<Rightarrow> Inr (jsonify DATAEXIST Msg_mobile_exists)
                | Failed \<Rightarrow> Inr (jsonify DATAERR Msg_db_query_failed)))"
proof -
  have h: "fst (case add_commit cfg f (the (mobile r)) (the (password r)) w2 of
                 (Inl e, w3) \<Rightarrow>
                   (if e = IntegrityError
                    then (Inr (jsonify DATAEXIST Msg_mobile_exists), log_error e (emit DbRollback w3))
                    else (Inr (jsonify DATAERR Msg_db_query_failed), log_error e (emit DbRollback w3)))
               | (Inr uid, w3) \<Rightarrow>
                   (Inr (jsonify OK Msg_register_ok),
                    set_session (the (mobile r)) (the (mobile r)) uid w3))
        = (case commit_result f of
                  Committed uid \<Rightarrow> Inr (jsonify OK Msg_register_ok)
                | Conflict \<Rightarrow> Inr (jsonify DATAEXIST Msg_mobile_exists)
                | Failed \<Rightarrow> Inr (jsonify DATAERR Msg_db_query_failed))" for w2
    by (simp add: add_commit_def Let_def split: commit_outcome.splits)
  show ?thesis
    by (simp add: register_code_present [OF assms] Let_def h split: sum.splits)
qed

lemma register_delete_irrelevant:
  "fst (register cfg (f\<lparr>delete_raises := a\<rparr>) r w) = fst (register cfg f r w)"
proof (cases "py_all [mobile r, sms_code r, password r, password2 r]")
  case False
  then show ?thesis by (simp add: register_invalid)
next
  case v: True
  show ?thesis
  proof (cases "re_match_mobile (the (mobile r))")
    case False
    then show ?thesis using v by (simp add: register_bad_format)
  next
    case m: True
    show ?thesis
    proof (cases "password2 r = password r")
      case False
      then have "password r \<noteq> password2 r" by simp
      then show ?thesis using v m by (simp add: register_mismatch)
    next
      case pw: True
      show ?thesis
      proof (cases "get_raises f")
        case True
        then have "get_raises (f\<lparr>delete_raises := a\<rparr>)" by simp
        from register_get_raises [OF v m pw this, of cfg w] register_get_raises [OF v m pw True, of cfg w]
        show ?thesis by simp
      next
        case g: False
        then have g': "\<not> get_raises (f\<lparr>delete_raises := a\<rparr>)" by simp
        show ?thesis
        proof (cases "redis_get (store w) (sms_code_key (the (mobile r)))")
          case None
          from register_code_absent [OF v m pw g' None, of cfg] register_code_absent [OF v m pw g None, of cfg]
          show ?thesis by simp
        next
          case (Some real)
          from register_response [OF v m pw g' Some, of cfg] register_response [OF v m pw g Some, of cfg]
          show ?thesis by (simp split: sum.splits)
        qed
      qed
    qed
  qed
qed

lemma register_raises_only_decode:
  "fst (register cfg f r w) = Inl e \<Longrightarrow> e = UnicodeDecodeError"
proof (cases "py_all [mobile r, sms_code r, password r, password2 r]")
  case False
  assume "fst (register cfg f r w) = Inl e"
  then show ?thesis using False by (simp add: register_invalid)
next
  case v: True
  assume a: "fst (register cfg f r w) = Inl e"
  show ?thesis
  proof (cases "re_match_mobile (the (mobile r))")
    case False
    then show ?thesis using v a by (simp add: register_bad_format)
  next
    case m: True
    show ?thesis
    proof (cases "password2 r = password r")
      case False
      then have "password r \<noteq> password2 r" by simp
      then show ?thesis using v m a by (simp add: register_mismatch)
    next
      case pw: True
      show ?thesis
      proof (cases "get_raises f")
        case True
        from register_get_raises [OF v m pw True, of cfg w] a show ?thesis by simp
      next
        case g: False
        show ?thesis
        proof (cases "redis_get (store w) (sms_code_key (the (mobile r)))")
          case None
          from register_code_absent [OF v m pw g None, of cfg] a show ?thesis by simp
        next
          case (Some real)
          from register_response [OF v m pw g Some, of cfg] a show ?thesis
            by (auto simp: decode_def split: sum.splits if_splits commit_outcome.splits)
        qed
      qed
    qed
  qed
qed

lemma login_raises_only_int:
  "fst (login cfg f r w) = Inl e \<Longrightarrow> e = ValueError"
proof (cases "py_all [mobile r, password r] \<and> re_match_mobile (the (mobile r))")
  case False
  assume a: "fst (login cfg f r w) = Inl e"
  from False have "login cfg f r w = (Inr (jsonify DATAERR Msg_params_incomplete), w)
           \<or> login cfg f r w = (Inr (jsonify DATAERR Msg_mobile_format_incorrect), w)"
    using login_incomplete login_bad_format by blast
  then show ?thesis using a by auto
next
  case True
  assume a: "fst (login cfg f r w) = Inl e"
  from True have v: "py_all [mobile r, password r]" "re_match_mobile (the (mobile r))" by simp_all
  show ?thesis
  proof (rule login_limiter_cases [OF v, of cfg f w])
    fix w1
    assume "login cfg f r w =
         login_check cfg f (the (mobile r)) (the (password r)) (access_nums_key (remote_addr r)) w1"
    then show ?thesis using a login_check_not_blocked(2) by simp
  qed (use a in simp_all)
qed

lemma login_record_faults_irrelevant:
  "fst (login cfg (f\<lparr>incr_raises := a, expire_raises := b\<rparr>) r w) = fst (login cfg f r w)"
  by (simp add: login_def login_check_def store_get_def user_query_def Let_def
      split: option.splits)

lemma register_store_delete_fault:
  "delete_raises f \<Longrightarrow> store (snd (register cfg f r w)) = store w"
  by (simp add: register_def store_get_def store_delete_def Let_def case_prod_unfold
      split: option.splits sum.splits)

subsection \<open>Failing store calls and the log\<close>

lemma calls_append: "trace w' = trace w @ es \<Longrightarrow> calls w w' = es"
  by (simp add: calls_def)

lemma fst_login_check:
  "fst (login_check cfg f m p k w) =
     (if query_raises f then Inr (jsonify DBERR Msg_get_user_failed)
      else (case users w m of
              None \<Rightarrow> Inr (jsonify DATAERR Msg_user_or_password_wrong)
            | Some u \<Rightarrow>
                if check_password cfg u p then Inr (jsonify OK Msg_login_ok)
                else Inr (jsonify DATAERR Msg_user_or_password_wrong)))"
  by (simp add: login_check_def user_query_def split: option.splits)

lemma login_passes:
  assumes v: "py_all [mobile r, password r]" "re_match_mobile (the (mobile r))"
    and g: "\<not> get_raises f"
    and n: "fst (login cfg f r w) \<notin> {Inr (jsonify REQERR Msg_too_many_errors), Inl ValueError}"
  shows "login cfg f r w =
           login_check cfg f (the (mobile r)) (the (password r)) (access_nums_key (remote_addr r))
             (emit (RedisGet (access_nums_key (remote_addr r))) w)"
proof (cases "redis_get (store w) (access_nums_key (remote_addr r))")
  case None
  then show ?thesis using login_counter_absent [OF v g] by simp
next
  case (Some x)
  have nr: "py_int x \<noteq> None" using n Some g by (auto simp: login_raises_iff [OF v])
  then obtain c where c: "py_int x = Some c" by auto
  have "c < LOGIN_ERROR_MAX_TIMES cfg"
    using n Some g c by (auto simp: login_blocked_iff [OF v])
  from login_counter_below [OF v g Some c this] show ?thesis .
qed

lemma login_read_fault_as_absent:
  assumes v: "py_all [mobile r, password r]" "re_match_mobile (the (mobile r))"
    and g: "get_raises f"
  shows "fst (login cfg f r w) =
     fst (login cfg (f\<lparr>get_raises := False\<rparr>) r
            (w\<lparr>store := redis_delete (store w) (access_nums_key (remote_addr r))\<rparr>))"
proof -
  let ?k = "access_nums_key (remote_addr r)"
  let ?w' = "w\<lparr>store := redis_delete (store w) ?k\<rparr>"
  have a: "redis_get (store ?w') ?k = None" by simp
  have g': "\<not> get_raises (f\<lparr>get_raises := False\<rparr>)" by simp
  show ?thesis
    by (simp add: login_get_raises [OF v g] login_counter_absent [OF v g' a] fst_login_check)
qed

lemma login_read_fault_logged:
  assumes v: "py_all [mobile r, password r]" "re_match_mobile (the (mobile r))"
    and g: "get_raises f"
  shows "take 2 (calls w (snd (login cfg f r w)))
           = [RedisGet (access_nums_key (remote_addr r)), LogError StoreError]"
proof -
  let ?k = "access_nums_key (remote_addr r)"
  let ?w1 = "log_error StoreError (emit (RedisGet ?k) w)"
  obtain es where "trace (snd (login cfg f r w)) = trace ?w1 @ UserQuery (the (mobile r)) # es"
    using login_check_trace [of cfg f "the (mobile r)" "the (password r)" ?k ?w1]
      login_get_raises [OF v g, of cfg w] by auto
  then show ?thesis by (simp add: calls_def)
qed

lemma login_query_fault_logged:
  assumes v: "py_all [mobile r, password r]" "re_match_mobile (the (mobile r))"
    and g: "\<not> get_raises f" and q: "query_raises f"
    and n: "fst (login cfg f r w) \<notin> {Inr (jsonify REQERR Msg_too_many_errors), Inl ValueError}"
  shows "calls w (snd (login cfg f r w))
           = [RedisGet (access_nums_key (remote_addr r)), UserQuery (the (mobile r)), LogError StoreError]"
  by (simp add: login_passes [OF v g n] login_check_query_raises [OF q] calls_def)

lemma login_incr_fault_logged:
  assumes v: "py_all [mobile r, password r]" "re_match_mobile (the (mobile r))"
    and g: "\<not> get_raises f" and q: "\<not> query_raises f"
    and u: "users w (the (mobile r)) = None
         \<or> (\<exists>u. users w (the (mobile r)) = Some u \<and> \<not> check_password cfg u (the (password r)))"
    and n: "fst (login cfg f r w) \<notin> {Inr (jsonify REQERR Msg_too_many_errors), Inl ValueError}"
    and i: "incr_raises f"
  shows "calls w (snd (login cfg f r w))
           = [RedisGet (access_nums_key (remote_addr r)), UserQuery (the (mobile r)),
              RedisIncr (access_nums_key (remote_addr r)), LogError StoreError]"
proof -
  let ?k = "access_nums_key (remote_addr r)"
  let ?w1 = "emit (RedisGet ?k) w"
  have "users ?w1 (the (mobile r)) = None
         \<or> (\<exists>u. users ?w1 (the (mobile r)) = Some u \<and> \<not> check_password cfg u (the (password r)))"
    using u by simp
  from login_check_rejected [OF q this, of ?k] show ?thesis using i
    by (simp add: login_passes [OF v g n] record_failure_def store_incr_def calls_def)
qed

lemma login_expire_fault_logged:
  assumes v: "py_all [mobile r, password r]" "re_match_mobile (the (mobile r))"
    and g: "\<not> get_raises f" and q: "\<not> query_raises f"
    and u: "users w (the (mobile r)) = None
         \<or> (\<exists>u. users w (the (mobile r)) = Some u \<and> \<not> check_password cfg u (the (password r)))"
    and n: "fst (login cfg f r w) \<notin> {Inr (jsonify REQERR Msg_too_many_errors), Inl ValueError}"
    and i: "\<not> incr_raises f" and s: "redis_incr (store w) (access_nums_key (remote_addr r)) = Inr s"
    and e: "expire_raises f"
  shows "calls w (snd (login cfg f r w))
           = [RedisGet (access_nums_key (remote_addr r)), UserQuery (the (mobile r)),
              RedisIncr (access_nums_key (remote_addr r)),
              RedisExpire (access_nums_key (remote_addr r)) (LOGIN_ERROR_FORBID_TIME cfg),
              LogError StoreError]"
proof -
  let ?k = "access_nums_key (remote_addr r)"
  let ?w1 = "emit (RedisGet ?k) w"
  have "users ?w1 (the (mobile r)) = None
         \<or> (\<exists>u. users ?w1 (the (mobile r)) = Some u \<and> \<not> check_password cfg u (the (password r)))"
    using u by simp
  from login_check_rejected [OF q this, of ?k] show ?thesis using i s e
    by (simp add: login_passes [OF v g n] record_failure_def store_incr_def store_expire_def calls_def)
qed

lemma register_read_fault_logged:
  assumes "py_all [mobile r, sms_code r, password r, password2 r]" "re_match_mobile (the (mobile r))"
    "password2 r = password r" "get_raises f"
  shows "calls w (snd (register cfg f r w))
           = [RedisGet (sms_code_key (the (mobile r))), LogError StoreError]"
  by (simp add: register_get_raises [OF assms] calls_def)

lemma register_delete_fault_logged:
  assumes "py_all [mobile r, sms_code r, password r, password2 r]" "re_match_mobile (the (mobile r))"
    "password2 r = password r" "\<not> get_raises f"
    "redis_get (store w) (sms_code_key (the (mobile r))) = Some real" "delete_raises f"
  shows "take 3 (calls w (snd (register cfg f r w)))
           = [RedisGet (sms_code_key (the (mobile r))), RedisDelete (sms_code_key (the (mobile r))),
              LogError StoreError]"
  using assms(6)
  by (simp add: register_code_present [OF assms(1-5)] store_delete_def Let_def add_commit_def
      calls_def emit_def log_error_def set_session_def case_prod_unfold
      split: sum.splits commit_outcome.splits)

lemma register_commit_fault_logged:
  assumes "py_all [mobile r, sms_code r, password r, password2 r]" "re_match_mobile (the (mobile r))"
    "password2 r = password r" "\<not> get_raises f"
    "redis_get (store w) (sms_code_key (the (mobile r))) = Some real" "\<not> delete_raises f"
    "decode real = Inr (the (sms_code r))"
  shows "commit_result f = Conflict \<Longrightarrow>
         calls w (snd (register cfg f r w))
           = [RedisGet (sms_code_key (the (mobile r))), RedisDelete (sms_code_key (the (mobile r))),
              DbAdd (the (mobile r)), DbCommit, DbRollback, LogError IntegrityError]"
    and "commit_result f = Failed \<Longrightarrow>
         calls w (snd (register cfg f r w))
           = [RedisGet (sms_code_key (the (mobile r))), RedisDelete (sms_code_key (the (mobile r))),
              DbAdd (the (mobile r)), DbCommit, DbRollback, LogError StoreError]"
  using assms(6,7)
  by (simp_all add: register_code_present [OF assms(1-5)] store_delete_def Let_def add_commit_def
      calls_def emit_def log_error_def)

section \<open>Claims\<close>

text \<open>
  C1: take a \<^verbatim>\<open>register\<close> call that passes validation, with equal passwords, a live
  code stored for the mobile, and \<^verbatim>\<open>get\<close> and \<^verbatim>\<open>delete\<close> on Redis not raising.
  When the submitted code equals the stored one and the commit goes through, the answer
  is \<^verbatim>\<open>RET.OK\<close>; when it differs, the answer is \<^verbatim>\<open>RET.DATAERR\<close> with the
  wrong-code message. Either way the first two calls are the read and the delete of the
  code, the code is gone afterwards, and the same request sent again is answered with
  \<^verbatim>\<open>RET.NODATA\<close>.
\<close>

theorem register_consumes_code:
  assumes v: "py_all [mobile r, sms_code r, password r, password2 r]"
      "re_match_mobile (the (mobile r))"
    and pw: "password r = password2 r"
    and g: "\<not> get_raises f" and d: "\<not> delete_raises f"
    and c: "redis_get (store w) (sms_code_key (the (mobile r))) = Some real"
  shows
    "(decode real = Inr (the (sms_code r)) \<and> commit_result f = Committed uid \<longrightarrow>
        fst (register cfg f r w) = Inr (jsonify OK Msg_register_ok))
   \<and> ((\<exists>code. decode real = Inr code \<and> code \<noteq> the (sms_code r)) \<longrightarrow>
        fst (register cfg f r w) = Inr (jsonify DATAERR Msg_sms_code_wrong))
   \<and> take 2 (calls w (snd (register cfg f r w)))
        = [RedisGet (sms_code_key (the (mobile r))), RedisDelete (sms_code_key (the (mobile r)))]
   \<and> redis_get (store (snd (register cfg f r w))) (sms_code_key (the (mobile r))) = None
   \<and> (\<not> get_raises f' \<longrightarrow>
        fst (register cfg f' r (snd (register cfg f r w))) = Inr (jsonify NODATA Msg_sms_code_expired))"
proof -
  let ?k = "sms_code_key (the (mobile r))"
  note pw' = pw [symmetric]
  note body = register_code_present [OF v pw' g c]
  have ok: "decode real = Inr (the (sms_code r)) \<and> commit_result f = Committed uid \<longrightarrow>
        fst (register cfg f r w) = Inr (jsonify OK Msg_register_ok)"
    by (simp add: body Let_def add_commit_def)
  have wrong: "(\<exists>code. decode real = Inr code \<and> code \<noteq> the (sms_code r)) \<longrightarrow>
        fst (register cfg f r w) = Inr (jsonify DATAERR Msg_sms_code_wrong)"
    by (auto simp: body Let_def)
  have tr: "take 2 (calls w (snd (register cfg f r w))) = [RedisGet ?k, RedisDelete ?k]"
    using register_trace_after_delete [OF v pw' g d c] .
  have gone: "redis_get (store (snd (register cfg f r w))) ?k = None"
    by (simp add: register_store_after_delete [OF v pw' g d c])
  have again: "\<not> get_raises f' \<longrightarrow>
        fst (register cfg f' r (snd (register cfg f r w))) = Inr (jsonify NODATA Msg_sms_code_expired)"
  proof
    assume "\<not> get_raises f'"
    from register_code_absent [OF v pw' this gone] show
      "fst (register cfg f' r (snd (register cfg f r w))) = Inr (jsonify NODATA Msg_sms_code_expired)"
      by simp
  qed
  show ?thesis using ok wrong tr gone again by blast
qed

theorem register_consumes_code_witness:
  "fst (register example_config no_faults example_request example_world)
     = Inr (jsonify OK Msg_register_ok)
   \<and> fst (register example_config no_faults example_request
             (snd (register example_config no_faults example_request example_world)))
     = Inr (jsonify NODATA Msg_sms_code_expired)
   \<and> fst (register example_config no_faults (example_request\<lparr>sms_code := Some ''0000''\<rparr>) example_world)
     = Inr (jsonify DATAERR Msg_sms_code_wrong)
   \<and> redis_get (store (snd (register example_config no_faults
                               (example_request\<lparr>sms_code := Some ''0000''\<rparr>) example_world)))
        (sms_code_key ''13800001111'') = None"
proof -
  let ?r = "example_request\<lparr>sms_code := Some ''0000''\<rparr>"
  have v: "py_all [mobile example_request, sms_code example_request, password example_request,
                   password2 example_request]"
      "re_match_mobile (the (mobile example_request))"
      "password example_request = password2 example_request"
    and v': "py_all [mobile ?r, sms_code ?r, password ?r, password2 ?r]"
      "re_match_mobile (the (mobile ?r))" "password ?r = password2 ?r"
    and f: "\<not> get_raises no_faults" "\<not> delete_raises no_faults" "commit_result no_faults = Committed 1"
    and c: "redis_get (store example_world) (sms_code_key (the (mobile example_request))) = Some ''4321''"
    and c': "redis_get (store example_world) (sms_code_key (the (mobile ?r))) = Some ''4321''"
    and d: "decode ''4321'' = Inr (the (sms_code example_request))"
    and d': "\<exists>code. decode ''4321'' = Inr code \<and> code \<noteq> the (sms_code ?r)"
    and m: "the (mobile ?r) = ''13800001111''"
    by (simp_all add: eval_defs)
  from register_consumes_code [OF v f(1,2) c, where uid = 1 and f' = no_faults and cfg = example_config]
    register_consumes_code [OF v' f(1,2) c', where cfg = example_config]
    d d' f m
  show ?thesis by simp
qed

text \<open>
  C2: take two \<^verbatim>\<open>login\<close> calls that pass validation and are not stopped by the
  attempt limiter, with a database that answers the query: one for a mobile with no
  user row, one for a registered mobile with a password that \<^verbatim>\<open>check_password\<close>
  rejects. Both get the same response, \<^verbatim>\<open>RET.DATAERR\<close> with the same message.
\<close>

theorem login_same_error_unknown_or_wrong:
  assumes "py_all [mobile r1, password r1]" and "re_match_mobile (the (mobile r1))"
    and "py_all [mobile r2, password r2]" and "re_match_mobile (the (mobile r2))"
    and "\<not> query_raises f1" and "\<not> query_raises f2"
    and "users w1 (the (mobile r1)) = None"
    and "users w2 (the (mobile r2)) = Some u" and "\<not> check_password cfg u (the (password r2))"
    and "fst (login cfg f1 r1 w1) \<notin> {Inr (jsonify REQERR Msg_too_many_errors), Inl ValueError}"
    and "fst (login cfg f2 r2 w2) \<notin> {Inr (jsonify REQERR Msg_too_many_errors), Inl ValueError}"
  shows "fst (login cfg f1 r1 w1) = Inr (jsonify DATAERR Msg_user_or_password_wrong)
       \<and> fst (login cfg f2 r2 w2) = Inr (jsonify DATAERR Msg_user_or_password_wrong)"
proof
  show "fst (login cfg f1 r1 w1) = Inr (jsonify DATAERR Msg_user_or_password_wrong)"
  proof (rule login_limiter_cases [OF assms(1,2), of cfg f1 w1])
    fix w' assume a: "login cfg f1 r1 w1 =
         login_check cfg f1 (the (mobile r1)) (the (password r1)) (access_nums_key (remote_addr r1)) w'"
      and b: "w' = emit (RedisGet (access_nums_key (remote_addr r1))) w1
           \<or> w' = log_error StoreError (emit (RedisGet (access_nums_key (remote_addr r1))) w1)"
    from b assms(7) have "users w' (the (mobile r1)) = None" by auto
    then show ?thesis using a login_check_rejected [OF assms(5), of w' "the (mobile r1)"] by simp
  qed (use assms(10) in simp_all)
  show "fst (login cfg f2 r2 w2) = Inr (jsonify DATAERR Msg_user_or_password_wrong)"
  proof (rule login_limiter_cases [OF assms(3,4), of cfg f2 w2])
    fix w' assume a: "login cfg f2 r2 w2 =
         login_check cfg f2 (the (mobile r2)) (the (password r2)) (access_nums_key (remote_addr r2)) w'"
      and b: "w' = emit (RedisGet (access_nums_key (remote_addr r2))) w2
           \<or> w' = log_error StoreError (emit (RedisGet (access_nums_key (remote_addr r2))) w2)"
    from b assms(8) have "users w' (the (mobile r2)) = Some u" by auto
    then show ?thesis
      using a assms(9) login_check_rejected [OF assms(6), of w' "the (mobile r2)" cfg "the (password r2)"]
      by simp
  qed (use assms(11) in simp_all)
qed

theorem login_same_error_unknown_or_wrong_witness:
  "users example_world (the (mobile example_request)) = None
   \<and> users example_world (the (mobile other_request)) \<noteq> None
   \<and> fst (login example_config no_faults example_request example_world)
        = Inr (jsonify DATAERR Msg_user_or_password_wrong)
   \<and> fst (login example_config no_faults other_request example_world)
        = Inr (jsonify DATAERR Msg_user_or_password_wrong)"
proof -
  let ?u = "\<lparr>user_id = 7, user_name = ''13900002222'', user_mobile = ''13900002222'',
             password_hash = ''secret''\<rparr>"
  have h1: "py_all [mobile example_request, password example_request]"
    and h2: "re_match_mobile (the (mobile example_request))"
    and h3: "py_all [mobile other_request, password other_request]"
    and h4: "re_match_mobile (the (mobile other_request))"
    and h5: "\<not> query_raises no_faults"
    and h7: "users example_world (the (mobile example_request)) = None"
    and h8: "users example_world (the (mobile other_request)) = Some ?u"
    and h9: "\<not> check_password example_config ?u (the (password other_request))"
    by (simp_all add: eval_defs other_request_def)
  have h10: "fst (login example_config no_faults example_request example_world)
               \<notin> {Inr (jsonify REQERR Msg_too_many_errors), Inl ValueError}"
    by (simp add: eval_defs)
  have h11: "fst (login example_config no_faults other_request example_world)
               \<notin> {Inr (jsonify REQERR Msg_too_many_errors), Inl ValueError}"
    by (simp add: eval_defs other_request_def)
  from login_same_error_unknown_or_wrong [OF h1 h2 h3 h4 h5 h5 h7 h8 h9 h10 h11] h7 h8
  show ?thesis by simp
qed

text \<open>
  C3: for a validated \<^verbatim>\<open>login\<close>. (1) When the counter of the client is read and its
  value is at least \<^verbatim>\<open>LOGIN_ERROR_MAX_TIMES\<close>, the answer is \<^verbatim>\<open>RET.REQERR\<close> and the
  only call made is the read of the counter: the user table is not queried. (2) When
  the counter is absent or below the limit, the answer is not \<^verbatim>\<open>RET.REQERR\<close> and the
  user table is queried. (3) Starting with no counter, after \<open>length ds\<close> failed logins,
  each followed by less than \<^verbatim>\<open>LOGIN_ERROR_FORBID_TIME\<close> seconds, the counter reads
  \<open>length ds\<close> (1 after the first); at exactly the limit the next login is refused
  without a query, below it the next login goes on to the query; and once a wait of at
  least the window follows a failure, the counter is absent and login goes on again.
\<close>

theorem login_attempt_limit:
  assumes v: "py_all [mobile r, password r]" "re_match_mobile (the (mobile r))"
  shows
    "(\<not> get_raises f \<and> redis_get (store w) (access_nums_key (remote_addr r)) = Some x
        \<and> py_int x = Some n \<and> LOGIN_ERROR_MAX_TIMES cfg \<le> n \<longrightarrow>
      fst (login cfg f r w) = Inr (jsonify REQERR Msg_too_many_errors)
      \<and> calls w (snd (login cfg f r w)) = [RedisGet (access_nums_key (remote_addr r))])
   \<and> (redis_get (store w) (access_nums_key (remote_addr r)) = None
        \<or> (redis_get (store w) (access_nums_key (remote_addr r)) = Some x \<and> py_int x = Some n
              \<and> n < LOGIN_ERROR_MAX_TIMES cfg) \<longrightarrow>
      fst (login cfg f r w) \<noteq> Inr (jsonify REQERR Msg_too_many_errors)
      \<and> UserQuery (the (mobile r)) \<in> set (calls w (snd (login cfg f r w))))
   \<and> ((users w (the (mobile r)) = None
          \<or> (\<exists>u. users w (the (mobile r)) = Some u \<and> \<not> check_password cfg u (the (password r))))
        \<and> redis_get (store w) (access_nums_key (remote_addr r)) = None
        \<and> 0 < LOGIN_ERROR_FORBID_TIME cfg \<and> LOGIN_ERROR_MAX_TIMES cfg < 2 ^ 63
        \<and> (\<forall>d \<in> set ds. int d < LOGIN_ERROR_FORBID_TIME cfg) \<longrightarrow>
      (ds \<noteq> [] \<and> int (length ds) \<le> LOGIN_ERROR_MAX_TIMES cfg \<longrightarrow>
         redis_get (store (failed_logins cfg r ds w)) (access_nums_key (remote_addr r))
           = Some (nat_to_dec (length ds)))
      \<and> (int (length ds) = LOGIN_ERROR_MAX_TIMES cfg \<and> ds \<noteq> [] \<and> \<not> get_raises f \<longrightarrow>
         fst (login cfg f r (failed_logins cfg r ds w)) = Inr (jsonify REQERR Msg_too_many_errors)
         \<and> calls (failed_logins cfg r ds w) (snd (login cfg f r (failed_logins cfg r ds w)))
             = [RedisGet (access_nums_key (remote_addr r))])
      \<and> (int (length ds) < LOGIN_ERROR_MAX_TIMES cfg \<longrightarrow>
         fst (login cfg f r (failed_logins cfg r ds w)) \<noteq> Inr (jsonify REQERR Msg_too_many_errors)
         \<and> UserQuery (the (mobile r))
             \<in> set (calls (failed_logins cfg r ds w) (snd (login cfg f r (failed_logins cfg r ds w)))))
      \<and> (int (length ds) < LOGIN_ERROR_MAX_TIMES cfg \<and> LOGIN_ERROR_FORBID_TIME cfg \<le> int d' \<longrightarrow>
         redis_get (store (failed_logins cfg r (ds @ [d']) w)) (access_nums_key (remote_addr r)) = None
         \<and> fst (login cfg f r (failed_logins cfg r (ds @ [d']) w))
             \<noteq> Inr (jsonify REQERR Msg_too_many_errors)
         \<and> UserQuery (the (mobile r))
             \<in> set (calls (failed_logins cfg r (ds @ [d']) w)
                       (snd (login cfg f r (failed_logins cfg r (ds @ [d']) w))))))"
    (is "?A \<and> ?B \<and> ?C")
proof (intro conjI)
  let ?k = "access_nums_key (remote_addr r)"
  show ?A
  proof (intro impI, elim conjE)
    assume "\<not> get_raises f" "redis_get (store w) ?k = Some x" "py_int x = Some n"
      "LOGIN_ERROR_MAX_TIMES cfg \<le> n"
    from login_counter_reached [OF v this] show
      "fst (login cfg f r w) = Inr (jsonify REQERR Msg_too_many_errors)
       \<and> calls w (snd (login cfg f r w)) = [RedisGet ?k]"
      by simp
  qed
  show ?B using login_proceeds [OF v] by blast
  show ?C
  proof (intro impI, elim conjE)
    assume u: "users w (the (mobile r)) = None
          \<or> (\<exists>u. users w (the (mobile r)) = Some u \<and> \<not> check_password cfg u (the (password r)))"
      and c: "redis_get (store w) ?k = None"
      and p: "0 < LOGIN_ERROR_FORBID_TIME cfg" and m: "LOGIN_ERROR_MAX_TIMES cfg < 2 ^ 63"
      and ds: "\<forall>d \<in> set ds. int d < LOGIN_ERROR_FORBID_TIME cfg"
    let ?W = "failed_logins cfg r ds w"
    have c0: "counter_is (store w) ?k 0" using c by (simp add: counter_is_def)
    have cnt: "int (length ds) \<le> LOGIN_ERROR_MAX_TIMES cfg \<Longrightarrow> counter_is (store ?W) ?k (length ds)"
      using failed_logins_count [OF v m p u c0 ds] by simp
    have g: "int (length ds) \<le> LOGIN_ERROR_MAX_TIMES cfg \<Longrightarrow>
        redis_get (store ?W) ?k = (if length ds = 0 then None else Some (nat_to_dec (length ds)))"
      using counter_is_get [OF cnt] by simp
    have 1: "ds \<noteq> [] \<and> int (length ds) \<le> LOGIN_ERROR_MAX_TIMES cfg \<longrightarrow>
         redis_get (store ?W) ?k = Some (nat_to_dec (length ds))"
      using g by simp
    have 2: "int (length ds) = LOGIN_ERROR_MAX_TIMES cfg \<and> ds \<noteq> [] \<and> \<not> get_raises f \<longrightarrow>
         fst (login cfg f r ?W) = Inr (jsonify REQERR Msg_too_many_errors)
         \<and> calls ?W (snd (login cfg f r ?W)) = [RedisGet ?k]"
    proof (intro impI, elim conjE)
      assume l: "int (length ds) = LOGIN_ERROR_MAX_TIMES cfg" and ne: "ds \<noteq> []" and gr: "\<not> get_raises f"
      have "redis_get (store ?W) ?k = Some (nat_to_dec (length ds))" using g l ne by simp
      from login_counter_reached [OF v gr this py_int_nat_to_dec] l
      show "fst (login cfg f r ?W) = Inr (jsonify REQERR Msg_too_many_errors)
         \<and> calls ?W (snd (login cfg f r ?W)) = [RedisGet ?k]" by simp
    qed
    have 3: "int (length ds) < LOGIN_ERROR_MAX_TIMES cfg \<longrightarrow>
         fst (login cfg f r ?W) \<noteq> Inr (jsonify REQERR Msg_too_many_errors)
         \<and> UserQuery (the (mobile r)) \<in> set (calls ?W (snd (login cfg f r ?W)))"
    proof
      assume l: "int (length ds) < LOGIN_ERROR_MAX_TIMES cfg"
      then have "redis_get (store ?W) ?k = None
          \<or> (redis_get (store ?W) ?k = Some (nat_to_dec (length ds))
              \<and> py_int (nat_to_dec (length ds)) = Some (int (length ds))
              \<and> int (length ds) < LOGIN_ERROR_MAX_TIMES cfg)"
        using g py_int_nat_to_dec by simp
      from login_proceeds [OF v this] show
        "fst (login cfg f r ?W) \<noteq> Inr (jsonify REQERR Msg_too_many_errors)
         \<and> UserQuery (the (mobile r)) \<in> set (calls ?W (snd (login cfg f r ?W)))" .
    qed
    let ?X = "failed_logins cfg r (ds @ [d']) w"
    have 4: "int (length ds) < LOGIN_ERROR_MAX_TIMES cfg \<and> LOGIN_ERROR_FORBID_TIME cfg \<le> int d' \<longrightarrow>
         redis_get (store ?X) ?k = None
         \<and> fst (login cfg f r ?X) \<noteq> Inr (jsonify REQERR Msg_too_many_errors)
         \<and> UserQuery (the (mobile r)) \<in> set (calls ?X (snd (login cfg f r ?X)))"
    proof (intro impI, elim conjE)
      assume l: "int (length ds) < LOGIN_ERROR_MAX_TIMES cfg" and e: "LOGIN_ERROR_FORBID_TIME cfg \<le> int d'"
      have n: "redis_get (store ?X) ?k = None"
        using failed_logins_expired [OF v m p u c ds l e] .
      then have "redis_get (store ?X) ?k = None
          \<or> (redis_get (store ?X) ?k = Some x \<and> py_int x = Some n \<and> n < LOGIN_ERROR_MAX_TIMES cfg)"
        by simp
      from login_proceeds [OF v this] n show
        "redis_get (store ?X) ?k = None
         \<and> fst (login cfg f r ?X) \<noteq> Inr (jsonify REQERR Msg_too_many_errors)
         \<and> UserQuery (the (mobile r)) \<in> set (calls ?X (snd (login cfg f r ?X)))" by simp
    qed
    show "(ds \<noteq> [] \<and> int (length ds) \<le> LOGIN_ERROR_MAX_TIMES cfg \<longrightarrow>
         redis_get (store ?W) ?k = Some (nat_to_dec (length ds)))
      \<and> (int (length ds) = LOGIN_ERROR_MAX_TIMES cfg \<and> ds \<noteq> [] \<and> \<not> get_raises f \<longrightarrow>
         fst (login cfg f r ?W) = Inr (jsonify REQERR Msg_too_many_errors)
         \<and> calls ?W (snd (login cfg f r ?W)) = [RedisGet ?k])
      \<and> (int (length ds) < LOGIN_ERROR_MAX_TIMES cfg \<longrightarrow>
         fst (login cfg f r ?W) \<noteq> Inr (jsonify REQERR Msg_too_many_errors)
         \<and> UserQuery (the (mobile r)) \<in> set (calls ?W (snd (login cfg f r ?W))))
      \<and> (int (length ds) < LOGIN_ERROR_MAX_TIMES cfg \<and> LOGIN_ERROR_FORBID_TIME cfg \<le> int d' \<longrightarrow>
         redis_get (store ?X) ?k = None
         \<and> fst (login cfg f r ?X) \<noteq> Inr (jsonify REQERR Msg_too_many_errors)
         \<and> UserQuery (the (mobile r)) \<in> set (calls ?X (snd (login cfg f r ?X))))"
      using 1 2 3 4 by blast
  qed
qed

theorem login_attempt_limit_witness:
  "fst (login example_config no_faults example_request (world_with_count ''5''))
     = Inr (jsonify REQERR Msg_too_many_errors)
   \<and> calls (world_with_count ''5'')
        (snd (login example_config no_faults example_request (world_with_count ''5'')))
      = [RedisGet (access_nums_key (remote_addr example_request))]
   \<and> redis_get (store (failed_logins example_config example_request [1] example_world))
        (access_nums_key (remote_addr example_request)) = Some ''1''
   \<and> fst (login example_config no_faults example_request
             (failed_logins example_config example_request [1, 1, 1, 1, 1] example_world))
      = Inr (jsonify REQERR Msg_too_many_errors)
   \<and> UserQuery (the (mobile example_request))
        \<in> set (calls (failed_logins example_config example_request [1, 1, 1, 1] example_world)
                 (snd (login example_config no_faults example_request
                        (failed_logins example_config example_request [1, 1, 1, 1] example_world))))
   \<and> redis_get (store (failed_logins example_config example_request ([1, 1] @ [600]) example_world))
        (access_nums_key (remote_addr example_request)) = None"
proof -
  let ?k = "access_nums_key (remote_addr example_request)"
  have v: "py_all [mobile example_request, password example_request]"
    "re_match_mobile (the (mobile example_request))"
    by (simp_all add: eval_defs)
  have a: "\<not> get_raises no_faults \<and> redis_get (store (world_with_count ''5'')) ?k = Some ''5''
        \<and> py_int ''5'' = Some 5 \<and> LOGIN_ERROR_MAX_TIMES example_config \<le> 5"
    by (simp add: eval_defs world_with_count_def)
  have c: "\<And>ds. \<forall>d \<in> set ds. int d < 600 \<Longrightarrow>
      (users example_world (the (mobile example_request)) = None
          \<or> (\<exists>u. users example_world (the (mobile example_request)) = Some u
                \<and> \<not> check_password example_config u (the (password example_request))))
        \<and> redis_get (store example_world) ?k = None
        \<and> 0 < LOGIN_ERROR_FORBID_TIME example_config \<and> LOGIN_ERROR_MAX_TIMES example_config < 2 ^ 63
        \<and> (\<forall>d \<in> set ds. int d < LOGIN_ERROR_FORBID_TIME example_config)"
    by (simp add: eval_defs)
  have m: "LOGIN_ERROR_MAX_TIMES example_config = 5" "LOGIN_ERROR_FORBID_TIME example_config = 600"
    "\<not> get_raises no_faults"
    by (simp_all add: example_config_def no_faults_def)
  have 1: "fst (login example_config no_faults example_request (world_with_count ''5''))
     = Inr (jsonify REQERR Msg_too_many_errors)
   \<and> calls (world_with_count ''5'')
        (snd (login example_config no_faults example_request (world_with_count ''5'')))
      = [RedisGet ?k]"
    using login_attempt_limit [OF v, where f = no_faults and w = "world_with_count ''5''"
        and x = "''5''" and n = 5 and cfg = example_config] a by blast
  have 2: "redis_get (store (failed_logins example_config example_request [1] example_world)) ?k
      = Some (nat_to_dec (length [1::nat]))"
    using login_attempt_limit [OF v, where w = example_world and cfg = example_config
        and ds = "[1]"] c [of "[1]"] m by simp
  have 3: "fst (login example_config no_faults example_request
             (failed_logins example_config example_request [1, 1, 1, 1, 1] example_world))
      = Inr (jsonify REQERR Msg_too_many_errors)"
    using login_attempt_limit [OF v, where w = example_world and cfg = example_config
        and ds = "[1, 1, 1, 1, 1]" and f = no_faults] c [of "[1, 1, 1, 1, 1]"] m by simp
  have 4: "UserQuery (the (mobile example_request))
        \<in> set (calls (failed_logins example_config example_request [1, 1, 1, 1] example_world)
                 (snd (login example_config no_faults example_request
                        (failed_logins example_config example_request [1, 1, 1, 1] example_world))))"
    using login_attempt_limit [OF v, where w = example_world and cfg = example_config
        and ds = "[1, 1, 1, 1]" and f = no_faults] c [of "[1, 1, 1, 1]"] m by simp
  have 5: "redis_get (store (failed_logins example_config example_request ([1, 1] @ [600]) example_world))
        ?k = None"
    using login_attempt_limit [OF v, where w = example_world and cfg = example_config
        and ds = "[1, 1]" and d' = 600 and f = no_faults] c [of "[1, 1]"] m by simp
  show ?thesis using 1 2 3 4 5 by (simp add: nat_to_dec_1)
qed

text \<open>
  C4, as amended: no exception of a store call leaves \<^verbatim>\<open>register\<close> or \<^verbatim>\<open>login\<close>;
  each is caught where the call is made and logged, so that a \<open>LogError\<close> follows the
  failing call in the trace. In \<^verbatim>\<open>register\<close> a failing read of the code gives
  \<^verbatim>\<open>RET.DBERR\<close> and a uniqueness conflict at the commit gives \<^verbatim>\<open>RET.DATAEXIST\<close>; a
  failing delete of the code is logged and otherwise ignored: the response is the one of
  a working delete, and the store is left as it was. In \<^verbatim>\<open>login\<close> a failing user
  query gives \<^verbatim>\<open>RET.DBERR\<close>; a failing read of the attempt counter is logged and the
  request is answered as if the client had no counter; failures of \<^verbatim>\<open>incr\<close> and
  \<^verbatim>\<open>expire\<close> are logged and do not change the response.
\<close>

theorem store_failures_handled:
  "fst (register cfg f r w) \<notin> {Inl StoreError, Inl ResponseError, Inl IntegrityError}
   \<and> fst (login cfg f r w) \<notin> {Inl StoreError, Inl ResponseError, Inl IntegrityError}
   \<and> (py_all [mobile r, sms_code r, password r, password2 r] \<and> re_match_mobile (the (mobile r))
        \<and> password r = password2 r \<and> get_raises f \<longrightarrow>
      fst (register cfg f r w) = Inr (jsonify DBERR Msg_read_sms_code_failed))
   \<and> (py_all [mobile r, sms_code r, password r, password2 r] \<and> re_match_mobile (the (mobile r))
        \<and> password r = password2 r \<and> \<not> get_raises f
        \<and> redis_get (store w) (sms_code_key (the (mobile r))) = Some real
        \<and> decode real = Inr (the (sms_code r)) \<and> commit_result f = Conflict \<longrightarrow>
      fst (register cfg f r w) = Inr (jsonify DATAEXIST Msg_mobile_exists))
   \<and> fst (register cfg (f\<lparr>delete_raises := True\<rparr>) r w)
        = fst (register cfg (f\<lparr>delete_raises := False\<rparr>) r w)
   \<and> store (snd (register cfg (f\<lparr>delete_raises := True\<rparr>) r w)) = store w
   \<and> (py_all [mobile r, password r] \<and> re_match_mobile (the (mobile r)) \<and> query_raises f
        \<and> fst (login cfg f r w) \<notin> {Inr (jsonify REQERR Msg_too_many_errors), Inl ValueError} \<longrightarrow>
      fst (login cfg f r w) = Inr (jsonify DBERR Msg_get_user_failed))
   \<and> fst (login cfg (f\<lparr>incr_raises := a, expire_raises := b\<rparr>) r w) = fst (login cfg f r w)
   \<and> (py_all [mobile r, sms_code r, password r, password2 r] \<and> re_match_mobile (the (mobile r))
        \<and> password r = password2 r \<and> get_raises f \<longrightarrow>
      calls w (snd (register cfg f r w)) = [RedisGet (sms_code_key (the (mobile r))), LogError StoreError])
   \<and> (py_all [mobile r, sms_code r, password r, password2 r] \<and> re_match_mobile (the (mobile r))
        \<and> password r = password2 r \<and> \<not> get_raises f
        \<and> redis_get (store w) (sms_code_key (the (mobile r))) = Some real \<and> delete_raises f \<longrightarrow>
      take 3 (calls w (snd (register cfg f r w)))
        = [RedisGet (sms_code_key (the (mobile r))), RedisDelete (sms_code_key (the (mobile r))), LogError StoreError])
   \<and> (py_all [mobile r, sms_code r, password r, password2 r] \<and> re_match_mobile (the (mobile r))
        \<and> password r = password2 r \<and> \<not> get_raises f
        \<and> redis_get (store w) (sms_code_key (the (mobile r))) = Some real \<and> \<not> delete_raises f
        \<and> decode real = Inr (the (sms_code r)) \<and> commit_result f = Conflict \<longrightarrow>
      calls w (snd (register cfg f r w))
        = [RedisGet (sms_code_key (the (mobile r))), RedisDelete (sms_code_key (the (mobile r))), DbAdd (the (mobile r)), DbCommit, DbRollback,
           LogError IntegrityError])
   \<and> (py_all [mobile r, sms_code r, password r, password2 r] \<and> re_match_mobile (the (mobile r))
        \<and> password r = password2 r \<and> \<not> get_raises f
        \<and> redis_get (store w) (sms_code_key (the (mobile r))) = Some real \<and> \<not> delete_raises f
        \<and> decode real = Inr (the (sms_code r)) \<and> commit_result f = Failed \<longrightarrow>
      calls w (snd (register cfg f r w))
        = [RedisGet (sms_code_key (the (mobile r))), RedisDelete (sms_code_key (the (mobile r))), DbAdd (the (mobile r)), DbCommit, DbRollback,
           LogError StoreError])
   \<and> (py_all [mobile r, password r] \<and> re_match_mobile (the (mobile r)) \<and> get_raises f \<longrightarrow>
      take 2 (calls w (snd (login cfg f r w))) = [RedisGet (access_nums_key (remote_addr r)), LogError StoreError]
      \<and> fst (login cfg f r w)
          = fst (login cfg (f\<lparr>get_raises := False\<rparr>) r
                   (w\<lparr>store := redis_delete (store w) (access_nums_key (remote_addr r))\<rparr>)))
   \<and> (py_all [mobile r, password r] \<and> re_match_mobile (the (mobile r)) \<and> \<not> get_raises f \<and> query_raises f
        \<and> fst (login cfg f r w) \<notin> {Inr (jsonify REQERR Msg_too_many_errors), Inl ValueError} \<longrightarrow>
      calls w (snd (login cfg f r w))
        = [RedisGet (access_nums_key (remote_addr r)), UserQuery (the (mobile r)), LogError StoreError])
   \<and> (py_all [mobile r, password r] \<and> re_match_mobile (the (mobile r)) \<and> \<not> get_raises f \<and> \<not> query_raises f
        \<and> (users w (the (mobile r)) = None
              \<or> (\<exists>u. users w (the (mobile r)) = Some u \<and> \<not> check_password cfg u (the (password r))))
        \<and> fst (login cfg f r w) \<notin> {Inr (jsonify REQERR Msg_too_many_errors), Inl ValueError}
        \<and> incr_raises f \<longrightarrow>
      calls w (snd (login cfg f r w))
        = [RedisGet (access_nums_key (remote_addr r)), UserQuery (the (mobile r)), RedisIncr (access_nums_key (remote_addr r)), LogError StoreError])
   \<and> (py_all [mobile r, password r] \<and> re_match_mobile (the (mobile r)) \<and> \<not> get_raises f \<and> \<not> query_raises f
        \<and> (users w (the (mobile r)) = None
              \<or> (\<exists>u. users w (the (mobile r)) = Some u \<and> \<not> check_password cfg u (the (password r))))
        \<and> fst (login cfg f r w) \<notin> {Inr (jsonify REQERR Msg_too_many_errors), Inl ValueError}
        \<and> \<not> incr_raises f \<and> redis_incr (store w) (access_nums_key (remote_addr r)) = Inr s \<and> expire_raises f \<longrightarrow>
      calls w (snd (login cfg f r w))
        = [RedisGet (access_nums_key (remote_addr r)), UserQuery (the (mobile r)), RedisIncr (access_nums_key (remote_addr r)),
           RedisExpire (access_nums_key (remote_addr r)) (LOGIN_ERROR_FORBID_TIME cfg), LogError StoreError])"
  (is "?A \<and> ?B \<and> ?C \<and> ?D \<and> ?E \<and> ?F \<and> ?G \<and> ?H \<and> ?I \<and> ?J \<and> ?K \<and> ?L \<and> ?M \<and> ?N \<and> ?O \<and> ?P")
proof (intro conjI)
  show ?A using register_raises_only_decode [of cfg f r w] by auto
  show ?B using login_raises_only_int [of cfg f r w] by auto
  show ?C
  proof (intro impI, elim conjE)
    assume "py_all [mobile r, sms_code r, password r, password2 r]" "re_match_mobile (the (mobile r))"
      "password r = password2 r" "get_raises f"
    from register_get_raises [OF this(1,2) this(3) [symmetric] this(4), of cfg w]
    show "fst (register cfg f r w) = Inr (jsonify DBERR Msg_read_sms_code_failed)" by simp
  qed
  show ?D
  proof (intro impI, elim conjE)
    assume a: "py_all [mobile r, sms_code r, password r, password2 r]" "re_match_mobile (the (mobile r))"
      "password r = password2 r" "\<not> get_raises f"
      "redis_get (store w) (sms_code_key (the (mobile r))) = Some real"
      and b: "decode real = Inr (the (sms_code r))" "commit_result f = Conflict"
    from register_response [OF a(1,2) a(3) [symmetric] a(4,5), of cfg] b
    show "fst (register cfg f r w) = Inr (jsonify DATAEXIST Msg_mobile_exists)" by simp
  qed
  show ?E
    using register_delete_irrelevant [where cfg = cfg and f = f and a = True and r = r and w = w]
      register_delete_irrelevant [where cfg = cfg and f = f and a = False and r = r and w = w]
    by simp
  show ?F by (simp add: register_store_delete_fault)
  show ?G
  proof (intro impI, elim conjE)
    assume v: "py_all [mobile r, password r]" "re_match_mobile (the (mobile r))"
      and q: "query_raises f"
      and n: "fst (login cfg f r w) \<notin> {Inr (jsonify REQERR Msg_too_many_errors), Inl ValueError}"
    show "fst (login cfg f r w) = Inr (jsonify DBERR Msg_get_user_failed)"
    proof (rule login_limiter_cases [OF v, of cfg f w])
      fix w1
      assume "login cfg f r w =
         login_check cfg f (the (mobile r)) (the (password r)) (access_nums_key (remote_addr r)) w1"
      then show ?thesis using login_check_query_raises [OF q] by simp
    qed (use n in simp_all)
  qed
  show ?H by (rule login_record_faults_irrelevant)
  show ?I
  proof (intro impI, elim conjE)
    assume "py_all [mobile r, sms_code r, password r, password2 r]" "re_match_mobile (the (mobile r))"
      "password r = password2 r" "get_raises f"
    from register_read_fault_logged [OF this(1,2) this(3) [symmetric] this(4)]
    show "calls w (snd (register cfg f r w)) = [RedisGet (sms_code_key (the (mobile r))), LogError StoreError]" .
  qed
  show ?J
  proof (intro impI, elim conjE)
    assume "py_all [mobile r, sms_code r, password r, password2 r]" "re_match_mobile (the (mobile r))"
      "password r = password2 r" "\<not> get_raises f"
      "redis_get (store w) (sms_code_key (the (mobile r))) = Some real" "delete_raises f"
    from register_delete_fault_logged [OF this(1,2) this(3) [symmetric] this(4,5,6)]
    show "take 3 (calls w (snd (register cfg f r w)))
        = [RedisGet (sms_code_key (the (mobile r))), RedisDelete (sms_code_key (the (mobile r))),
           LogError StoreError]" .
  qed
  show ?K
  proof (intro impI, elim conjE)
    assume "py_all [mobile r, sms_code r, password r, password2 r]" "re_match_mobile (the (mobile r))"
      "password r = password2 r" "\<not> get_raises f"
      "redis_get (store w) (sms_code_key (the (mobile r))) = Some real" "\<not> delete_raises f"
      "decode real = Inr (the (sms_code r))" "commit_result f = Conflict"
    from register_commit_fault_logged(1) [OF this(1,2) this(3) [symmetric] this(4,5,6,7,8)]
    show "calls w (snd (register cfg f r w))
        = [RedisGet (sms_code_key (the (mobile r))), RedisDelete (sms_code_key (the (mobile r))),
           DbAdd (the (mobile r)), DbCommit, DbRollback, LogError IntegrityError]" .
  qed
  show ?L
  proof (intro impI, elim conjE)
    assume "py_all [mobile r, sms_code r, password r, password2 r]" "re_match_mobile (the (mobile r))"
      "password r = password2 r" "\<not> get_raises f"
      "redis_get (store w) (sms_code_key (the (mobile r))) = Some real" "\<not> delete_raises f"
      "decode real = Inr (the (sms_code r))" "commit_result f = Failed"
    from register_commit_fault_logged(2) [OF this(1,2) this(3) [symmetric] this(4,5,6,7,8)]
    show "calls w (snd (register cfg f r w))
        = [RedisGet (sms_code_key (the (mobile r))), RedisDelete (sms_code_key (the (mobile r))),
           DbAdd (the (mobile r)), DbCommit, DbRollback, LogError StoreError]" .
  qed
  show ?M
  proof (intro impI, elim conjE)
    assume v: "py_all [mobile r, password r]" "re_match_mobile (the (mobile r))" and g: "get_raises f"
    from login_read_fault_logged [OF v g, where cfg = cfg and w = w]
      login_read_fault_as_absent [OF v g, where cfg = cfg and w = w]
    show "take 2 (calls w (snd (login cfg f r w)))
          = [RedisGet (access_nums_key (remote_addr r)), LogError StoreError]
      \<and> fst (login cfg f r w)
          = fst (login cfg (f\<lparr>get_raises := False\<rparr>) r
                   (w\<lparr>store := redis_delete (store w) (access_nums_key (remote_addr r))\<rparr>))"
      by simp
  qed
  show ?N
  proof (intro impI, elim conjE)
    assume "py_all [mobile r, password r]" "re_match_mobile (the (mobile r))" "\<not> get_raises f"
      "query_raises f"
      "fst (login cfg f r w) \<notin> {Inr (jsonify REQERR Msg_too_many_errors), Inl ValueError}"
    from login_query_fault_logged [OF this]
    show "calls w (snd (login cfg f r w))
        = [RedisGet (access_nums_key (remote_addr r)), UserQuery (the (mobile r)), LogError StoreError]" .
  qed
  show ?O
  proof (intro impI, elim conjE)
    assume "py_all [mobile r, password r]" "re_match_mobile (the (mobile r))" "\<not> get_raises f"
      "\<not> query_raises f"
      "users w (the (mobile r)) = None
         \<or> (\<exists>u. users w (the (mobile r)) = Some u \<and> \<not> check_password cfg u (the (password r)))"
      "fst (login cfg f r w) \<notin> {Inr (jsonify REQERR Msg_too_many_errors), Inl ValueError}"
      "incr_raises f"
    from login_incr_fault_logged [OF this]
    show "calls w (snd (login cfg f r w))
        = [RedisGet (access_nums_key (remote_addr r)), UserQuery (the (mobile r)),
           RedisIncr (access_nums_key (remote_addr r)), LogError StoreError]" .
  qed
  show ?P
  proof (intro impI, elim conjE)
    assume "py_all [mobile r, password r]" "re_match_mobile (the (mobile r))" "\<not> get_raises f"
      "\<not> query_raises f"
      "users w (the (mobile r)) = None
         \<or> (\<exists>u. users w (the (mobile r)) = Some u \<and> \<not> check_password cfg u (the (password r)))"
      "fst (login cfg f r w) \<notin> {Inr (jsonify REQERR Msg_too_many_errors), Inl ValueError}"
      "\<not> incr_raises f" "redis_incr (store w) (access_nums_key (remote_addr r)) = Inr s"
      "expire_raises f"
    from login_expire_fault_logged [OF this]
    show "calls w (snd (login cfg f r w))
        = [RedisGet (access_nums_key (remote_addr r)), UserQuery (the (mobile r)),
           RedisIncr (access_nums_key (remote_addr r)),
           RedisExpire (access_nums_key (remote_addr r)) (LOGIN_ERROR_FORBID_TIME cfg),
           LogError StoreError]" .
  qed
qed

theorem store_failures_handled_witness:
  "fst (register example_config get_fault example_request example_world)
     = Inr (jsonify DBERR Msg_read_sms_code_failed)
   \<and> fst (register example_config (no_faults\<lparr>commit_result := Conflict\<rparr>) example_request example_world)
     = Inr (jsonify DATAEXIST Msg_mobile_exists)
   \<and> fst (register example_config (no_faults\<lparr>delete_raises := True\<rparr>) example_request example_world)
     = fst (register example_config (no_faults\<lparr>delete_raises := False\<rparr>) example_request example_world)
   \<and> fst (login example_config query_fault example_request example_world)
     = Inr (jsonify DBERR Msg_get_user_failed)
   \<and> calls example_world (snd (register example_config get_fault example_request example_world))
     = [RedisGet (sms_code_key (the (mobile example_request))), LogError StoreError]
   \<and> take 3 (calls example_world
              (snd (register example_config (no_faults\<lparr>delete_raises := True\<rparr>) example_request
                     example_world)))
     = [RedisGet (sms_code_key (the (mobile example_request))),
        RedisDelete (sms_code_key (the (mobile example_request))), LogError StoreError]
   \<and> take 2 (calls (world_with_count ''5'')
              (snd (login example_config get_fault example_request (world_with_count ''5''))))
     = [RedisGet (access_nums_key (remote_addr example_request)), LogError StoreError]
   \<and> fst (login example_config get_fault example_request (world_with_count ''5''))
     = fst (login example_config (get_fault\<lparr>get_raises := False\<rparr>) example_request
              ((world_with_count ''5'')\<lparr>store := redis_delete (store (world_with_count ''5''))
                  (access_nums_key (remote_addr example_request))\<rparr>))
   \<and> calls example_world
         (snd (login example_config (no_faults\<lparr>incr_raises := True\<rparr>) example_request example_world))
     = [RedisGet (access_nums_key (remote_addr example_request)),
        UserQuery (the (mobile example_request)),
        RedisIncr (access_nums_key (remote_addr example_request)), LogError StoreError]"
proof -
  have v: "py_all [mobile example_request, sms_code example_request, password example_request,
                   password2 example_request]
      \<and> re_match_mobile (the (mobile example_request))
      \<and> password example_request = password2 example_request"
    and v2: "py_all [mobile example_request, password example_request]"
    and g: "get_raises get_fault" "\<not> get_raises (no_faults\<lparr>commit_result := Conflict\<rparr>)"
      "commit_result (no_faults\<lparr>commit_result := Conflict\<rparr>) = Conflict"
      "query_raises query_fault"
    and c: "redis_get (store example_world) (sms_code_key (the (mobile example_request))) = Some ''4321''"
      "decode ''4321'' = Inr (the (sms_code example_request))"
    by (simp_all add: eval_defs get_fault_def query_fault_def)
  have n: "fst (login example_config query_fault example_request example_world)
             \<notin> {Inr (jsonify REQERR Msg_too_many_errors), Inl ValueError}"
    by (simp add: eval_defs query_fault_def)
  have 1: "fst (register example_config get_fault example_request example_world)
     = Inr (jsonify DBERR Msg_read_sms_code_failed)"
    using store_failures_handled [where cfg = example_config and f = get_fault and r = example_request
      and w = example_world, THEN conjunct2, THEN conjunct2, THEN conjunct1] v g(1) by blast
  have 2: "fst (register example_config (no_faults\<lparr>commit_result := Conflict\<rparr>) example_request
               example_world) = Inr (jsonify DATAEXIST Msg_mobile_exists)"
    using store_failures_handled [where cfg = example_config
      and f = "no_faults\<lparr>commit_result := Conflict\<rparr>"
      and r = example_request and w = example_world and real = "''4321''", THEN conjunct2, THEN conjunct2, THEN conjunct2, THEN conjunct1] v g(2,3) c by blast
  have 3: "fst (register example_config (no_faults\<lparr>delete_raises := True\<rparr>) example_request example_world)
     = fst (register example_config (no_faults\<lparr>delete_raises := False\<rparr>) example_request example_world)"
    using store_failures_handled [where cfg = example_config and f = no_faults and r = example_request
      and w = example_world, THEN conjunct2, THEN conjunct2, THEN conjunct2, THEN conjunct2, THEN conjunct1] by blast
  have 4: "fst (login example_config query_fault example_request example_world)
     = Inr (jsonify DBERR Msg_get_user_failed)"
    using store_failures_handled [where cfg = example_config and f = query_fault and r = example_request
      and w = example_world, THEN conjunct2, THEN conjunct2, THEN conjunct2, THEN conjunct2, THEN conjunct2, THEN conjunct2, THEN conjunct1] v v2 g(4) n by blast
  have 5: "calls example_world (snd (register example_config get_fault example_request example_world))
     = [RedisGet (sms_code_key (the (mobile example_request))), LogError StoreError]"
    using store_failures_handled [where cfg = example_config and f = get_fault and r = example_request
      and w = example_world, THEN conjunct2, THEN conjunct2, THEN conjunct2, THEN conjunct2, THEN conjunct2, THEN conjunct2, THEN conjunct2, THEN conjunct2, THEN conjunct1] v g(1) by blast
  have d: "\<not> get_raises (no_faults\<lparr>delete_raises := True\<rparr>)"
    "delete_raises (no_faults\<lparr>delete_raises := True\<rparr>)"
    by (simp_all add: no_faults_def)
  have 6: "take 3 (calls example_world
              (snd (register example_config (no_faults\<lparr>delete_raises := True\<rparr>) example_request
                     example_world)))
     = [RedisGet (sms_code_key (the (mobile example_request))),
        RedisDelete (sms_code_key (the (mobile example_request))), LogError StoreError]"
    using store_failures_handled [where cfg = example_config
      and f = "no_faults\<lparr>delete_raises := True\<rparr>"
      and r = example_request and w = example_world and real = "''4321''", THEN conjunct2, THEN conjunct2, THEN conjunct2, THEN conjunct2, THEN conjunct2, THEN conjunct2, THEN conjunct2, THEN conjunct2, THEN conjunct2, THEN conjunct1] v d c(1) by blast
  have 7: "take 2 (calls (world_with_count ''5'')
              (snd (login example_config get_fault example_request (world_with_count ''5''))))
     = [RedisGet (access_nums_key (remote_addr example_request)), LogError StoreError]
   \<and> fst (login example_config get_fault example_request (world_with_count ''5''))
     = fst (login example_config (get_fault\<lparr>get_raises := False\<rparr>) example_request
              ((world_with_count ''5'')\<lparr>store := redis_delete (store (world_with_count ''5''))
                  (access_nums_key (remote_addr example_request))\<rparr>))"
    using store_failures_handled [where cfg = example_config and f = get_fault and r = example_request
      and w = "world_with_count ''5''", THEN conjunct2, THEN conjunct2, THEN conjunct2, THEN conjunct2, THEN conjunct2, THEN conjunct2, THEN conjunct2, THEN conjunct2, THEN conjunct2, THEN conjunct2, THEN conjunct2, THEN conjunct2, THEN conjunct1] v v2 g(1) by blast
  have i: "\<not> get_raises (no_faults\<lparr>incr_raises := True\<rparr>)"
    "\<not> query_raises (no_faults\<lparr>incr_raises := True\<rparr>)"
    "incr_raises (no_faults\<lparr>incr_raises := True\<rparr>)"
    "users example_world (the (mobile example_request)) = None"
    by (simp_all add: eval_defs)
  have n': "fst (login example_config (no_faults\<lparr>incr_raises := True\<rparr>) example_request example_world)
             \<notin> {Inr (jsonify REQERR Msg_too_many_errors), Inl ValueError}"
    by (simp add: eval_defs)
  have 8: "calls example_world
         (snd (login example_config (no_faults\<lparr>incr_raises := True\<rparr>) example_request example_world))
     = [RedisGet (access_nums_key (remote_addr example_request)),
        UserQuery (the (mobile example_request)),
        RedisIncr (access_nums_key (remote_addr example_request)), LogError StoreError]"
    using store_failures_handled [where cfg = example_config
      and f = "no_faults\<lparr>incr_raises := True\<rparr>" and r = example_request
      and w = example_world, THEN conjunct2, THEN conjunct2, THEN conjunct2, THEN conjunct2, THEN conjunct2, THEN conjunct2, THEN conjunct2, THEN conjunct2, THEN conjunct2, THEN conjunct2, THEN conjunct2, THEN conjunct2, THEN conjunct2, THEN conjunct2, THEN conjunct1] v v2 i n' by blast
  show ?thesis using 1 2 3 4 5 6 7 8 by blast
qed

text \<open>
  Against C4 as it was stated: with a failing delete \<^verbatim>\<open>register\<close> answers \<^verbatim>\<open>RET.OK\<close>
  and the code stays in the store; a commit failure that is no uniqueness conflict is
  answered with \<^verbatim>\<open>RET.DATAERR\<close>, the code of a wrong verification code; and a failing
  read of the attempt counter leaves \<^verbatim>\<open>login\<close> at its wrong-credentials answer.
\<close>

theorem store_failure_not_always_dberr:
  "fst (register example_config (no_faults\<lparr>delete_raises := True\<rparr>) example_request example_world)
     = Inr (jsonify OK Msg_register_ok)
   \<and> redis_get (store (snd (register example_config (no_faults\<lparr>delete_raises := True\<rparr>)
                               example_request example_world)))
        (sms_code_key ''13800001111'') = Some ''4321''
   \<and> fst (register example_config (no_faults\<lparr>commit_result := Failed\<rparr>) example_request example_world)
     = Inr (jsonify DATAERR Msg_db_query_failed)
   \<and> fst (register example_config no_faults (example_request\<lparr>sms_code := Some ''0000''\<rparr>) example_world)
     = Inr (jsonify DATAERR Msg_sms_code_wrong)
   \<and> fst (login example_config get_fault example_request example_world)
     = Inr (jsonify DATAERR Msg_user_or_password_wrong)
   \<and> DATAERR \<noteq> DBERR \<and> OK \<noteq> DBERR"
  by (simp add: eval_defs get_fault_def)

text \<open>
  C5: on a request with a missing field, and on one with a malformed mobile, both
  handlers return before any store call, \<^verbatim>\<open>register\<close> with \<^verbatim>\<open>RET.PARAMERR\<close> but
  \<^verbatim>\<open>login\<close> with \<^verbatim>\<open>RET.DATAERR\<close>, the code it also gives to wrong credentials.
\<close>

theorem invalid_input_codes_differ:
  "login example_config no_faults (example_request\<lparr>mobile := None\<rparr>) example_world
     = (Inr (jsonify DATAERR Msg_params_incomplete), example_world)
   \<and> register example_config no_faults (example_request\<lparr>mobile := None\<rparr>) example_world
     = (Inr (jsonify PARAMERR Msg_params_incomplete), example_world)
   \<and> login example_config no_faults (example_request\<lparr>mobile := Some ''12345''\<rparr>) example_world
     = (Inr (jsonify DATAERR Msg_mobile_format_incorrect), example_world)
   \<and> register example_config no_faults (example_request\<lparr>mobile := Some ''12345''\<rparr>) example_world
     = (Inr (jsonify PARAMERR Msg_mobile_format_error), example_world)
   \<and> fst (login example_config no_faults example_request example_world)
     = Inr (jsonify DATAERR Msg_user_or_password_wrong)
   \<and> DATAERR \<noteq> PARAMERR"
  by (simp add: eval_defs)

text \<open>
  C6: when reading the attempt counter raises, a validated \<^verbatim>\<open>login\<close> is not answered
  with \<^verbatim>\<open>RET.REQERR\<close> and goes on to query the user table.
\<close>

theorem login_limiter_read_fails_open:
  assumes "py_all [mobile r, password r]" and "re_match_mobile (the (mobile r))"
    and "get_raises f"
  shows "(\<forall>resp. fst (login cfg f r w) = Inr resp \<longrightarrow> errno resp \<noteq> REQERR)
       \<and> UserQuery (the (mobile r)) \<in> set (calls w (snd (login cfg f r w)))"
proof -
  let ?k = "access_nums_key (remote_addr r)"
  let ?w1 = "log_error StoreError (emit (RedisGet ?k) w)"
  have eq: "login cfg f r w = login_check cfg f (the (mobile r)) (the (password r)) ?k ?w1"
    using assms by (rule login_get_raises)
  obtain es where "trace (snd (login cfg f r w)) = trace ?w1 @ UserQuery (the (mobile r)) # es"
    using login_check_trace [of cfg f "the (mobile r)" "the (password r)" ?k ?w1] eq by auto
  then have "UserQuery (the (mobile r)) \<in> set (calls w (snd (login cfg f r w)))"
    by (simp add: calls_def)
  moreover have "\<forall>resp. fst (login cfg f r w) = Inr resp \<longrightarrow> errno resp \<noteq> REQERR"
    unfolding eq
    by (simp add: login_check_def user_query_def jsonify_def split: option.splits)
  ultimately show ?thesis by simp
qed

theorem login_limiter_read_fails_open_witness:
  "get_raises get_fault
   \<and> fst (login example_config no_faults example_request (world_with_count ''5''))
        = Inr (jsonify REQERR Msg_too_many_errors)
   \<and> fst (login example_config get_fault example_request (world_with_count ''5''))
        \<noteq> Inr (jsonify REQERR Msg_too_many_errors)
   \<and> UserQuery ''13800001111''
        \<in> set (calls (world_with_count ''5'')
                 (snd (login example_config get_fault example_request (world_with_count ''5''))))"
proof -
  have h1: "py_all [mobile example_request, password example_request]"
    and h2: "re_match_mobile (the (mobile example_request))"
    and h3: "get_raises get_fault"
    by (simp_all add: eval_defs get_fault_def)
  have b: "fst (login example_config no_faults example_request (world_with_count ''5''))
        = Inr (jsonify REQERR Msg_too_many_errors)"
    by (simp add: eval_defs world_with_count_def)
  have m: "the (mobile example_request) = ''13800001111''" by (simp add: example_request_def)
  have e: "errno (jsonify REQERR Msg_too_many_errors) = REQERR" by (simp add: jsonify_def)
  from login_limiter_read_fails_open [OF h1 h2 h3, of example_config "world_with_count ''5''"] h3 b m e
  show ?thesis by auto
qed

text \<open>
  C7: a validated \<^verbatim>\<open>login\<close> that gets past the limiter and whose credential check
  fails answers \<^verbatim>\<open>RET.DATAERR\<close> with the wrong-credentials message, whether or not
  \<^verbatim>\<open>incr\<close> or \<^verbatim>\<open>expire\<close> raise while the failure is recorded.
\<close>

theorem login_failure_recording_never_masks:
  assumes "py_all [mobile r, password r]" and "re_match_mobile (the (mobile r))"
    and "\<not> query_raises f"
    and "users w (the (mobile r)) = None
         \<or> (\<exists>u. users w (the (mobile r)) = Some u \<and> \<not> check_password cfg u (the (password r)))"
    and "fst (login cfg f r w) \<notin> {Inr (jsonify REQERR Msg_too_many_errors), Inl ValueError}"
  shows "fst (login cfg (f\<lparr>incr_raises := a, expire_raises := b\<rparr>) r w)
           = Inr (jsonify DATAERR Msg_user_or_password_wrong)"
proof -
  let ?f = "f\<lparr>incr_raises := a, expire_raises := b\<rparr>"
  have nb: "fst (login cfg ?f r w) \<noteq> Inr (jsonify REQERR Msg_too_many_errors)"
    using assms(5) by (simp add: login_blocked_iff [OF assms(1,2)])
  have nr: "fst (login cfg ?f r w) \<noteq> Inl ValueError"
    using assms(5) by (simp add: login_raises_iff [OF assms(1,2)])
  have q: "\<not> query_raises ?f" using assms(3) by simp
  show ?thesis
  proof (rule login_limiter_cases [OF assms(1,2), of cfg ?f w])
    fix w1
    assume a: "login cfg ?f r w =
         login_check cfg ?f (the (mobile r)) (the (password r)) (access_nums_key (remote_addr r)) w1"
      and b: "w1 = emit (RedisGet (access_nums_key (remote_addr r))) w
           \<or> w1 = log_error StoreError (emit (RedisGet (access_nums_key (remote_addr r))) w)"
    from b have "users w1 = users w" by auto
    with assms(4) have "users w1 (the (mobile r)) = None
         \<or> (\<exists>u. users w1 (the (mobile r)) = Some u \<and> \<not> check_password cfg u (the (password r)))"
      by simp
    from login_check_rejected [OF q this] a show ?thesis by simp
  qed (use nb nr in simp_all)
qed

theorem login_failure_recording_never_masks_witness:
  "users example_world (the (mobile example_request)) = None
   \<and> fst (login example_config (no_faults\<lparr>incr_raises := True, expire_raises := True\<rparr>)
             example_request example_world)
        = Inr (jsonify DATAERR Msg_user_or_password_wrong)
   \<and> fst (login example_config (no_faults\<lparr>incr_raises := False, expire_raises := True\<rparr>)
             example_request example_world)
        = Inr (jsonify DATAERR Msg_user_or_password_wrong)"
proof -
  have h1: "py_all [mobile example_request, password example_request]"
    and h2: "re_match_mobile (the (mobile example_request))"
    and h3: "\<not> query_raises no_faults"
    and h4: "users example_world (the (mobile example_request)) = None"
    by (simp_all add: eval_defs)
  have h5: "fst (login example_config no_faults example_request example_world)
               \<notin> {Inr (jsonify REQERR Msg_too_many_errors), Inl ValueError}"
    by (simp add: eval_defs)
  from login_failure_recording_never_masks [OF h1 h2 h3 disjI1 [OF h4] h5, where a = True and b = True]
    login_failure_recording_never_masks [OF h1 h2 h3 disjI1 [OF h4] h5, where a = False and b = True] h4
  show ?thesis by simp
qed

text \<open>
  C8: a \<^verbatim>\<open>register\<close> call whose \<^verbatim>\<open>password\<close> and \<^verbatim>\<open>password2\<close> differ answers
  with \<^verbatim>\<open>RET.PARAMERR\<close> and leaves the world as it was: no call on Redis is made, so
  the stored code is neither read nor deleted. (When a field is missing or the mobile
  is malformed the answer is \<^verbatim>\<open>RET.PARAMERR\<close> as well, from an earlier check.)
\<close>

theorem register_password_mismatch:
  assumes "password r \<noteq> password2 r"
  shows "\<exists>msg. register cfg f r w = (Inr (jsonify PARAMERR msg), w)"
  using assms by (auto simp: register_def py_all4 Let_def)

theorem register_password_mismatch_witness:
  "password (example_request\<lparr>password2 := Some ''pv''\<rparr>)
     \<noteq> password2 (example_request\<lparr>password2 := Some ''pv''\<rparr>)
   \<and> register example_config no_faults (example_request\<lparr>password2 := Some ''pv''\<rparr>) example_world
       = (Inr (jsonify PARAMERR Msg_passwords_differ), example_world)
   \<and> redis_get (store example_world) (sms_code_key ''13800001111'') = Some ''4321''"
  using register_password_mismatch
    [of "example_request\<lparr>password2 := Some ''pv''\<rparr>" example_config no_faults example_world]
  by (simp add: eval_defs)

text \<open>
  C9: a \<^verbatim>\<open>login\<close> that answers \<^verbatim>\<open>RET.OK\<close> leaves the Redis store as it was and
  makes no \<^verbatim>\<open>delete\<close>, \<^verbatim>\<open>incr\<close> or \<^verbatim>\<open>expire\<close> call: the attempt counter of the
  client keeps its value and its deadline.
\<close>

theorem login_success_keeps_counter:
  assumes "fst (login cfg f r w) = Inr resp" and "errno resp = OK"
  shows "store (snd (login cfg f r w)) = store w
       \<and> RedisDelete k' \<notin> set (calls w (snd (login cfg f r w)))
       \<and> RedisIncr k' \<notin> set (calls w (snd (login cfg f r w)))
       \<and> RedisExpire k' t \<notin> set (calls w (snd (login cfg f r w)))"
proof (cases "py_all [mobile r, password r] \<and> re_match_mobile (the (mobile r))")
  case False
  then have "login cfg f r w = (Inr (jsonify DATAERR Msg_params_incomplete), w)
           \<or> login cfg f r w = (Inr (jsonify DATAERR Msg_mobile_format_incorrect), w)"
    using login_incomplete login_bad_format by blast
  then show ?thesis using assms by (auto simp: jsonify_def)
next
  case True
  then have v: "py_all [mobile r, password r]" "re_match_mobile (the (mobile r))" by simp_all
  show ?thesis
  proof (rule login_limiter_cases [OF v, of cfg f w])
    assume "login cfg f r w = (Inl ValueError, emit (RedisGet (access_nums_key (remote_addr r))) w)"
    then show ?thesis using assms by simp
  next
    assume "login cfg f r w =
       (Inr (jsonify REQERR Msg_too_many_errors), emit (RedisGet (access_nums_key (remote_addr r))) w)"
    then show ?thesis using assms by (auto simp: jsonify_def)
  next
    fix w1
    assume a: "login cfg f r w =
         login_check cfg f (the (mobile r)) (the (password r)) (access_nums_key (remote_addr r)) w1"
      and b: "w1 = emit (RedisGet (access_nums_key (remote_addr r))) w
           \<or> w1 = log_error StoreError (emit (RedisGet (access_nums_key (remote_addr r))) w)"
    let ?m = "the (mobile r)" and ?p = "the (password r)"
    have ok: "fst (login_check cfg f ?m ?p (access_nums_key (remote_addr r)) w1) = Inr resp"
      using a assms(1) by simp
    have nq: "\<not> query_raises f"
      using ok assms(2) by (auto simp: login_check_query_raises jsonify_def)
    have "\<not> (users w1 ?m = None \<or> (\<exists>u. users w1 ?m = Some u \<and> \<not> check_password cfg u ?p))"
    proof
      assume "users w1 ?m = None \<or> (\<exists>u. users w1 ?m = Some u \<and> \<not> check_password cfg u ?p)"
      from login_check_rejected [OF nq this, of "access_nums_key (remote_addr r)"]
      show False using ok assms(2) by (auto simp: jsonify_def)
    qed
    then obtain u where u: "users w1 ?m = Some u" "check_password cfg u ?p" by auto
    have "snd (login cfg f r w) = set_session (user_name u) (user_mobile u) (user_id u) (emit (UserQuery ?m) w1)"
      using a login_check_accepted [OF nq u] by simp
    then show ?thesis using b by (auto simp: calls_def)
  qed
qed

theorem login_success_keeps_counter_witness:
  "fst (login example_config no_faults good_request (world_with_count ''3''))
     = Inr (jsonify OK Msg_login_ok)
   \<and> entries (store (snd (login example_config no_faults good_request (world_with_count ''3''))))
        (access_nums_key ''203.0.113.5'') = Some (''3'', Some 600)"
proof -
  have h1: "fst (login example_config no_faults good_request (world_with_count ''3''))
     = Inr (jsonify OK Msg_login_ok)"
    by (simp add: eval_defs world_with_count_def good_request_def other_request_def)
  have h2: "errno (jsonify OK Msg_login_ok) = OK" by (simp add: jsonify_def)
  have "entries (store (world_with_count ''3'')) (access_nums_key ''203.0.113.5'') = Some (''3'', Some 600)"
    by (simp add: world_with_count_def)
  with login_success_keeps_counter [OF h1 h2] h1 show ?thesis by simp
qed

text \<open>
  C10: the mobile pattern is anchored at the start of the string only. A string whose
  first 11 characters match the pattern matches it, whatever follows, and neither
  \<^verbatim>\<open>register\<close> nor \<^verbatim>\<open>login\<close> answers it with its format error.
\<close>

theorem mobile_pattern_start_anchored:
  assumes "re_match_mobile (take 11 s)"
  shows "re_match_mobile s
    \<and> fst (register cfg f (r\<lparr>mobile := Some s\<rparr>) w) \<noteq> Inr (jsonify PARAMERR Msg_mobile_format_error)
    \<and> fst (login cfg f (r\<lparr>mobile := Some s\<rparr>) w) \<noteq> Inr (jsonify DATAERR Msg_mobile_format_incorrect)"
proof -
  have m: "re_match_mobile s" using assms by (rule re_match_mobile_take)
  have "fst (register cfg f (r\<lparr>mobile := Some s\<rparr>) w) \<noteq> Inr (jsonify PARAMERR Msg_mobile_format_error)"
    using m by (simp add: register_def Let_def jsonify_def split: prod.splits sum.splits option.splits)
  moreover have "fst (login cfg f (r\<lparr>mobile := Some s\<rparr>) w) \<noteq> Inr (jsonify DATAERR Msg_mobile_format_incorrect)"
    using m by (simp add: login_def login_check_def Let_def jsonify_def split: prod.splits sum.splits option.splits)
  ultimately show ?thesis using m by simp
qed

theorem mobile_pattern_start_anchored_witness:
  "re_match_mobile (take 11 ''13800001111abc'') \<and> re_match_mobile ''13800001111abc''
   \<and> fst (register example_config no_faults (example_request\<lparr>mobile := Some ''13800001111abc''\<rparr>) example_world)
        \<noteq> Inr (jsonify PARAMERR Msg_mobile_format_error)
   \<and> fst (login example_config no_faults (example_request\<lparr>mobile := Some ''13800001111abc''\<rparr>) example_world)
        \<noteq> Inr (jsonify DATAERR Msg_mobile_format_incorrect)"
  using mobile_pattern_start_anchored [of "''13800001111abc''" example_config no_faults example_request example_world]
  by simp

end
